theory Spec2Isabelle
  imports Complex_Main "HOL-Library.Word"
begin

unbundle bit_operations_syntax

section \<open>Magic Eight Ball firmware: data model\<close>

text \<open>
  The model follows \<^verbatim>\<open>firmware/src/main.cpp\<close>. The target is an ESP32-S3:
  \<^verbatim>\<open>uint32_t\<close>, \<^verbatim>\<open>unsigned long\<close> and \<^verbatim>\<open>size_t\<close> are 32 bits wide,
  \<^verbatim>\<open>int16_t\<close> samples are 16-bit words read in two's complement by \<open>sint\<close>.
\<close>

type_synonym u8 = "8 word"
type_synonym u16 = "16 word"
type_synonym i16 = "16 word"
type_synonym u32 = "32 word"
type_synonym u64 = "64 word"

subsection \<open>Recording constants (main.cpp, lines 24-29)\<close>

definition record_number :: nat where
  "record_number = 134"

definition record_length :: nat where
  "record_length = 240"

definition record_size :: nat where
  "record_size = record_number * record_length"

definition record_samplerate :: nat where
  "record_samplerate = 16000"

subsection \<open>Responses\<close>

text \<open>The field \<^verbatim>\<open>text\<close> is spelled \<open>text_str\<close>: \<open>text\<close> is a command name here.\<close>

record Response =
  text_str :: string
  wav_path :: string
  bitmap_path :: string

section \<open>Seed engine\<close>

subsection \<open>generateSeedFromText (main.cpp, lines 260-271)\<close>

text \<open>
  \<^verbatim>\<open>tolower(question[i])\<close> in the C locale: the upper-case ASCII letters move
  down by 32, every other character code is left as it is. The character is read
  as its code \<open>0..255\<close> (\<^verbatim>\<open>char\<close> is unsigned on this target); the questions the
  state machine builds hold printable ASCII only.
\<close>

definition tolower_code :: "char \<Rightarrow> nat" where
  "tolower_code c =
     (let k = (of_char c :: nat) in if 65 \<le> k \<and> k \<le> 90 then k + 32 else k)"

text \<open>The \<^verbatim>\<open>for\<close> loop over the question: \<^verbatim>\<open>hash = ((hash << 5) + hash) + tolower(question[i])\<close>.\<close>

fun hash_loop :: "u32 \<Rightarrow> string \<Rightarrow> u32" where
  "hash_loop hash [] = hash"
| "hash_loop hash (c # cs) =
     hash_loop ((push_bit 5 hash + hash) + of_nat (tolower_code c)) cs"

text \<open>The second argument is the value \<^verbatim>\<open>millis()\<close> returns inside the function.\<close>

definition generateSeedFromText :: "string \<Rightarrow> u32 \<Rightarrow> u32" where
  "generateSeedFromText question now =
     (let hash = hash_loop 5381 question;
          hash = hash XOR now;
          hash = hash XOR drop_bit 16 hash;
          hash = hash * 0x85ebca6b;
          hash = hash XOR drop_bit 13 hash
      in hash)"

text \<open>
  The specification's wording of the same function, kept apart from the code: the
  avalanche finisher, the per-character update exactly as the specification writes it
  (\<open>acc*33 + acc + charCode\<close>), and the classic DJB2 update (\<open>acc*33 + charCode\<close>).
\<close>

definition finisher :: "u32 \<Rightarrow> u32" where
  "finisher acc0 =
     (let acc1 = acc0 XOR drop_bit 16 acc0;
          acc2 = acc1 * 0x85EBCA6B
      in acc2 XOR drop_bit 13 acc2)"

definition spec_text_update :: "u32 \<Rightarrow> char \<Rightarrow> u32" where
  "spec_text_update acc c = acc * 33 + acc + of_nat (tolower_code c)"

definition spec_seedFromText :: "string \<Rightarrow> u32 \<Rightarrow> u32" where
  "spec_seedFromText question clock =
     finisher (foldl spec_text_update 5381 question XOR clock)"

definition djb2_update :: "u32 \<Rightarrow> char \<Rightarrow> u32" where
  "djb2_update acc c = acc * 33 + of_nat (tolower_code c)"

definition djb2_seedFromText :: "string \<Rightarrow> u32 \<Rightarrow> u32" where
  "djb2_seedFromText question clock =
     finisher (foldl djb2_update 5381 question XOR clock)"

subsection \<open>generateSeedFromAudio (main.cpp, lines 274-305)\<close>

datatype error = DivideByZero | IndexOutOfRange

text \<open>
  Peak loop. \<^verbatim>\<open>abs(audio_data[i])\<close> is computed on \<^verbatim>\<open>int\<close> and stored into the
  \<^verbatim>\<open>int16_t\<close> variable \<^verbatim>\<open>abs_val\<close>, which keeps its low 16 bits; the comparison
  \<^verbatim>\<open>abs_val > peak\<close> is a signed one.
\<close>

fun peak_loop :: "i16 \<Rightarrow> i16 list \<Rightarrow> i16" where
  "peak_loop peak [] = peak"
| "peak_loop peak (x # xs) =
     (let abs_val = (word_of_int \<bar>sint x\<bar> :: i16)
      in peak_loop (if sint peak < sint abs_val then abs_val else peak) xs)"

text \<open>
  Zero-crossing loop, \<^verbatim>\<open>i\<close> from 1: the pair \<^verbatim>\<open>(audio_data[i-1], audio_data[i])\<close>;
  the counter is a \<^verbatim>\<open>uint16_t\<close>.
\<close>

fun zero_crossings_loop :: "u16 \<Rightarrow> i16 list \<Rightarrow> u16" where
  "zero_crossings_loop zc (a # b # xs) =
     zero_crossings_loop
       (if (sint a < 0 \<and> 0 \<le> sint b) \<or> (0 \<le> sint a \<and> sint b < 0) then zc + 1 else zc)
       (b # xs)"
| "zero_crossings_loop zc xs = zc"

text \<open>
  Energy loop: the product is an \<^verbatim>\<open>int32_t\<close> (at most \<open>2^30\<close>, so it does not
  overflow), added to the \<^verbatim>\<open>uint64_t\<close> accumulator.
\<close>

fun sum_squares_loop :: "u64 \<Rightarrow> i16 list \<Rightarrow> u64" where
  "sum_squares_loop acc [] = acc"
| "sum_squares_loop acc (x # xs) = sum_squares_loop (acc + word_of_int (sint x * sint x)) xs"

text \<open>
  \<^verbatim>\<open>uint32_t rms = sqrt(sum_squares / num_samples)\<close>: the quotient is converted to
  \<^verbatim>\<open>double\<close>, its square root is taken and the result is truncated to an integer.
  The quotient is a mean of squares of 16-bit values, at most \<open>2^30\<close>, which a
  \<^verbatim>\<open>double\<close> holds exactly, and the correctly rounded root of such a value truncates
  to the integer square root. \<open>isqrt\<close> computes that integer bit by bit, from bit
  31 down; lemma \<open>isqrt_real\<close> below relates it to the real square root.
\<close>

fun sqrt_search :: "nat \<Rightarrow> nat \<Rightarrow> nat \<Rightarrow> nat" where
  "sqrt_search 0 n r = r"
| "sqrt_search (Suc k) n r =
     sqrt_search k n (if (r + 2 ^ k) * (r + 2 ^ k) \<le> n then r + 2 ^ k else r)"

definition isqrt :: "nat \<Rightarrow> nat" where
  "isqrt n = sqrt_search 32 n 0"

text \<open>
  The sample array and its length are one list. With no sample the division
  \<^verbatim>\<open>sum_squares / num_samples\<close> divides by zero. The second argument is the value
  \<^verbatim>\<open>millis()\<close> returns inside the function.
\<close>

definition generateSeedFromAudio :: "i16 list \<Rightarrow> u32 \<Rightarrow> error + u32" where
  "generateSeedFromAudio audio_data now =
     (let seed = (0 :: u32);
          peak = peak_loop 0 audio_data;
          seed = seed XOR word_of_int (sint peak);
          zero_crossings = zero_crossings_loop 0 audio_data;
          seed = seed XOR push_bit 8 (ucast zero_crossings);
          sum_squares = sum_squares_loop 0 audio_data
      in if length audio_data = 0 then Inl DivideByZero
         else
           (let rms = (of_nat (isqrt (unat sum_squares div length audio_data)) :: u32);
                seed = seed XOR push_bit 16 rms;
                seed = seed XOR now
            in Inr seed))"

text \<open>
  The specification's wording of the audio seed, kept apart from the code: the peak
  absolute amplitude, the number of sign changes between adjacent samples (zero counts
  as non-negative), and the integer root of the mean square.
\<close>

definition peak_amplitude :: "i16 list \<Rightarrow> nat" where
  "peak_amplitude xs = foldr (\<lambda>x m. max (nat \<bar>sint x\<bar>) m) xs 0"

definition sign_changes :: "i16 list \<Rightarrow> nat" where
  "sign_changes xs = length (filter (\<lambda>(a, b). (sint a < 0) \<noteq> (sint b < 0)) (zip xs (tl xs)))"

definition rms_energy :: "i16 list \<Rightarrow> nat" where
  "rms_energy xs = isqrt (sum_list (map (\<lambda>x. nat (sint x * sint x)) xs) div length xs)"

definition spec_seedFromAudio :: "i16 list \<Rightarrow> u32 \<Rightarrow> u32" where
  "spec_seedFromAudio xs clock =
     of_nat (peak_amplitude xs) XOR push_bit 8 (of_nat (sign_changes xs))
       XOR push_bit 16 (of_nat (rms_energy xs)) XOR clock"

subsection \<open>selectResponse (main.cpp, lines 308-311)\<close>

text \<open>
  The function reads the global \<^verbatim>\<open>responses\<close> vector; the model takes it as an
  argument. \<^verbatim>\<open>seed % responses.size()\<close> is computed on 32-bit unsigned values and
  the \<^verbatim>\<open>uint8_t\<close> return type keeps its low eight bits. A vector on the device has
  fewer than \<open>2^32\<close> elements, so the remainder is taken on naturals.
\<close>

definition selectResponse :: "Response list \<Rightarrow> u32 \<Rightarrow> u8" where
  "selectResponse responses seed =
     (if length responses = 0 then 0
      else of_nat (unat seed mod length responses))"

section \<open>Interaction state machine\<close>

subsection \<open>Program state\<close>

datatype AppState = IDLE | TEXT_INPUT | VOICE_INPUT | THINKING | SHOWING_ANSWER

text \<open>
  What the program does to the outside, in the order it does it: calls that switch the
  microphone and the speaker, successful \<^verbatim>\<open>Mic.record\<close> calls (with the offset into
  \<^verbatim>\<open>rec_data\<close> of the pointer they are given), seeds computed, \<^verbatim>\<open>Speaker.playRaw\<close>
  (with the sample count), lines printed on the serial console and screens drawn.
\<close>

datatype screen =
    IdleScreen
  | TextInputScreen string bool
  | VoiceInputScreen nat
  | ThinkingScreen
  | AnswerScreen u8

datatype event =
    MicBegin
  | MicEnd
  | SpeakerBegin
  | SpeakerEnd
  | MicRecord nat
  | Seed u32
  | PlayRaw nat
  | Printf string
  | Display screen

text \<open>
  The global variables of main.cpp, the two switches of the audio hardware that
  \<^verbatim>\<open>Mic.begin/end\<close> and \<^verbatim>\<open>Speaker.begin/end\<close> set (the program reads the first with
  \<^verbatim>\<open>Mic.isEnabled()\<close>), and the history of events so far. \<^verbatim>\<open>size_t\<close> indices are
  naturals; the one subtraction on them is written with its wrap-around.
\<close>

record app =
  current_state :: AppState
  current_question :: string
  current_response_idx :: u8
  state_timer :: u32
  cursor_visible :: bool
  last_cursor_blink :: u32
  audio_played :: bool
  rec_record_idx :: nat
  draw_record_idx :: nat
  rec_data :: "i16 list"
  mic_enabled :: bool
  speaker_enabled :: bool
  log :: "event list"

subsection \<open>What one pass of \<^verbatim>\<open>loop()\<close> reads from the outside\<close>

text \<open>
  Every call of \<^verbatim>\<open>millis()\<close> in \<^verbatim>\<open>loop()\<close> and the functions it calls has its own
  reading, named after its place: no relation between the readings is assumed.
\<close>

datatype clock_site =
    BlinkCheck | BlinkSet | VoiceStart
  | SeedEnter | TimerEnter | SeedButton | TimerButton
  | SeedAudio | TimerVoice
  | ThinkingCheck | ThinkingSet
  | AnswerReset | AnswerCheck

record wav_file =
  file_size :: nat
  bytes_read :: nat

text \<open>
  \<open>mic_record\<close> is the result of \<^verbatim>\<open>Mic.record\<close>: \<open>None\<close> when it returns false,
  \<open>Some chunk\<close> when it returns true and has stored the \<open>record_length\<close>
  samples \<open>chunk 0, chunk 1, ...\<close> at the pointer it was given. \<open>sd_open\<close> is
  \<^verbatim>\<open>SD.open\<close> (\<open>None\<close>: no such file) with the size of the file and the number of bytes
  the one \<^verbatim>\<open>file.read\<close> call delivers; \<open>malloc_ok\<close> tells whether
  \<^verbatim>\<open>heap_caps_malloc\<close> returns a buffer; \<open>isPlaying k\<close> is the answer of the
  \<open>k\<close>-th call of \<^verbatim>\<open>Speaker.isPlaying()\<close>.
\<close>

record tick_input =
  kb_isChange :: bool
  kb_isPressed :: bool
  keys_word :: "char list"
  keys_del :: bool
  keys_enter :: bool
  btnA_wasPressed :: bool
  mic_record :: "(nat \<Rightarrow> i16) option"
  millis :: "clock_site \<Rightarrow> u32"
  sd_open :: "string \<Rightarrow> wav_file option"
  malloc_ok :: bool
  isPlaying :: "nat \<Rightarrow> bool"

text \<open>
  A pass of \<^verbatim>\<open>loop()\<close> returns, or never leaves the wait for the end of the playback,
  or does what C++ leaves undefined. The state comes with each of them: it is the state at
  the return, in the wait, or at the fault.
\<close>

datatype outcome = Returned | Blocked | Faulted error

definition then_do :: "outcome \<times> app \<Rightarrow> (app \<Rightarrow> outcome \<times> app) \<Rightarrow> outcome \<times> app" where
  "then_do r f = (case fst r of Returned \<Rightarrow> f (snd r) | Blocked \<Rightarrow> r | Faulted e \<Rightarrow> r)"

subsection \<open>Peripherals and display\<close>

definition emit :: "event \<Rightarrow> app \<Rightarrow> app" where
  "emit e s = s\<lparr>log := log s @ [e]\<rparr>"

definition Mic_begin :: "app \<Rightarrow> app" where
  "Mic_begin s = emit MicBegin (s\<lparr>mic_enabled := True\<rparr>)"

definition Mic_end :: "app \<Rightarrow> app" where
  "Mic_end s = emit MicEnd (s\<lparr>mic_enabled := False\<rparr>)"

definition Speaker_begin :: "app \<Rightarrow> app" where
  "Speaker_begin s = emit SpeakerBegin (s\<lparr>speaker_enabled := True\<rparr>)"

definition Speaker_end :: "app \<Rightarrow> app" where
  "Speaker_end s = emit SpeakerEnd (s\<lparr>speaker_enabled := False\<rparr>)"

text \<open>
  \<^verbatim>\<open>Mic.record(p, record_length, record_samplerate)\<close> returning true, with \<^verbatim>\<open>p\<close> the
  address \<open>offset\<close> samples into \<^verbatim>\<open>rec_data\<close>.
\<close>

definition write_chunk :: "i16 list \<Rightarrow> nat \<Rightarrow> (nat \<Rightarrow> i16) \<Rightarrow> i16 list" where
  "write_chunk buf offset chunk =
     take offset buf @ map chunk [0..<record_length] @ drop (offset + record_length) buf"

definition Mic_record :: "nat \<Rightarrow> (nat \<Rightarrow> i16) \<Rightarrow> app \<Rightarrow> app" where
  "Mic_record offset chunk s =
     emit (MicRecord offset) (s\<lparr>rec_data := write_chunk (rec_data s) offset chunk\<rparr>)"

text \<open>A line on the serial console: the text of the format string up to its first argument.\<close>

definition printf :: "string \<Rightarrow> app \<Rightarrow> app" where
  "printf line s = emit (Printf line) s"

definition displayIdle :: "app \<Rightarrow> app" where
  "displayIdle s = emit (Display IdleScreen) s"

definition displayTextInput :: "string \<Rightarrow> app \<Rightarrow> app" where
  "displayTextInput question s = emit (Display (TextInputScreen question (cursor_visible s))) s"

definition displayVoiceInput :: "nat \<Rightarrow> app \<Rightarrow> app" where
  "displayVoiceInput progress s = emit (Display (VoiceInputScreen progress)) s"

definition displayThinking :: "app \<Rightarrow> app" where
  "displayThinking s = emit (Display ThinkingScreen) s"

definition displayAnswer :: "Response list \<Rightarrow> u8 \<Rightarrow> app \<Rightarrow> app" where
  "displayAnswer responses idx s =
     (if length responses \<le> unat idx then s else emit (Display (AnswerScreen idx)) s)"

subsection \<open>playResponseAudio (main.cpp, lines 460-522)\<close>

text \<open>
  The wait \<^verbatim>\<open>while (Speaker.isPlaying()) { delay(10); M5Cardputer.update(); }\<close>, from
  the \<open>k\<close>-th answer on. It ends when an answer is false and gives the number of
  answers that were true; it does not end (\<open>None\<close>) when all are true.
\<close>

partial_function (option) wait_playing :: "(nat \<Rightarrow> bool) \<Rightarrow> nat \<Rightarrow> nat option" where
  "wait_playing playing k = (if playing k then wait_playing playing (Suc k) else Some k)"

definition playResponseAudio :: "tick_input \<Rightarrow> string \<Rightarrow> app \<Rightarrow> outcome \<times> app" where
  "playResponseAudio inp path s =
     (if path = [] then (Returned, printf ''No audio file specified'' s)
      else
        (case sd_open inp path of
           None \<Rightarrow> (Returned, printf ''Audio file not found'' s)
         | Some file \<Rightarrow>
             if file_size file < 44 then (Returned, printf ''Invalid WAV file (too small)'' s)
             else
               (let audio_data_size = file_size file - 44 in
                if \<not> malloc_ok inp then (Returned, printf ''Failed to allocate audio buffer'' s)
                else if bytes_read file \<noteq> audio_data_size
                then (Returned, printf ''Failed to read complete audio file'' s)
                else
                  (let s = Mic_end s;
                       s = Speaker_begin s;
                       sample_count = audio_data_size div 2;
                       s = printf ''Playing audio'' s;
                       s = emit (PlayRaw sample_count) s
                   in case wait_playing (isPlaying inp) 0 of
                        None \<Rightarrow> (Blocked, s)
                      | Some k \<Rightarrow> (Returned, printf ''Audio playback complete'' (Speaker_end s))))))"

subsection \<open>setup (main.cpp, lines 524-600)\<close>

text \<open>
  The state when \<^verbatim>\<open>setup()\<close> has run to its end: the globals at their initial values,
  the capture buffer allocated with \<open>record_size\<close> samples and zeroed, and, after
  \<^verbatim>\<open>Speaker.end(); Mic.begin();\<close>, the speaker off and the microphone on. The history
  starts here. The responses loaded on the way are an argument of \<open>loop\<close>. The paths
  of \<^verbatim>\<open>setup()\<close> that halt, and its early return when no card is attached (no
  responses, no buffer), are not part of the model.
\<close>

definition after_setup :: app where
  "after_setup =
     \<lparr>current_state = IDLE,
      current_question = [],
      current_response_idx = 0,
      state_timer = 0,
      cursor_visible = True,
      last_cursor_blink = 0,
      audio_played = False,
      rec_record_idx = 2,
      draw_record_idx = 0,
      rec_data = replicate record_size 0,
      mic_enabled = True,
      speaker_enabled = False,
      log = []\<rparr>"

subsection \<open>loop (main.cpp, lines 602-753)\<close>

definition printable :: "char \<Rightarrow> bool" where
  "printable key = (0x20 \<le> (of_char key :: nat) \<and> (of_char key :: nat) \<le> 0x7E)"

text \<open>Lines 607-613: the cursor blink.\<close>

definition cursor_blink :: "tick_input \<Rightarrow> app \<Rightarrow> app" where
  "cursor_blink inp s =
     (if 500 < millis inp BlinkCheck - last_cursor_blink s then
        (let s = s\<lparr>cursor_visible := \<not> cursor_visible s\<rparr>;
             s = s\<lparr>last_cursor_blink := millis inp BlinkSet\<rparr>
         in if current_state s = TEXT_INPUT then displayTextInput (current_question s) s else s)
      else s)"

text \<open>Lines 623-631: the first printable key opens the text input.\<close>

fun idle_keys :: "char list \<Rightarrow> app \<Rightarrow> app" where
  "idle_keys [] s = s"
| "idle_keys (key # keys) s =
     (if printable key then
        (let s = s\<lparr>current_question := []\<rparr>;
             s = s\<lparr>current_question := current_question s @ [key]\<rparr>;
             s = s\<lparr>current_state := TEXT_INPUT\<rparr>
         in displayTextInput (current_question s) s)
      else idle_keys keys s)"

definition idle_tick :: "tick_input \<Rightarrow> app \<Rightarrow> app" where
  "idle_tick inp s =
     (let s = (if kb_isChange inp \<and> kb_isPressed inp then idle_keys (keys_word inp) s else s)
      in if btnA_wasPressed inp then
           (let s = s\<lparr>current_state := VOICE_INPUT\<rparr>;
                s = s\<lparr>rec_record_idx := 2\<rparr>;
                s = s\<lparr>draw_record_idx := 0\<rparr>;
                s = Mic_begin s;
                s = s\<lparr>state_timer := millis inp VoiceStart\<rparr>
            in displayVoiceInput 0 s)
         else s)"

text \<open>
  Lines 661-665 and again lines 682-686: the question is submitted. The two clock
  readings are the one inside \<^verbatim>\<open>generateSeedFromText\<close> and the one stored in
  \<^verbatim>\<open>state_timer\<close>.
\<close>

definition submit_question :: "Response list \<Rightarrow> u32 \<Rightarrow> u32 \<Rightarrow> app \<Rightarrow> app" where
  "submit_question responses seed_clock timer_clock s =
     (let seed = generateSeedFromText (current_question s) seed_clock;
          s = emit (Seed seed) s;
          s = s\<lparr>current_response_idx := selectResponse responses seed\<rparr>;
          s = s\<lparr>current_state := THINKING\<rparr>;
          s = s\<lparr>state_timer := timer_clock\<rparr>
      in displayThinking s)"

text \<open>Lines 669-674: every printable key is appended.\<close>

fun text_keys :: "char list \<Rightarrow> app \<Rightarrow> app" where
  "text_keys [] s = s"
| "text_keys (key # keys) s =
     text_keys keys
       (if printable key then
          (let s = s\<lparr>current_question := current_question s @ [key]\<rparr>
           in displayTextInput (current_question s) s)
        else s)"

definition text_input_tick :: "Response list \<Rightarrow> tick_input \<Rightarrow> app \<Rightarrow> app" where
  "text_input_tick responses inp s =
     (let s =
        (if kb_isChange inp \<and> kb_isPressed inp then
           (if keys_del inp \<and> 0 < length (current_question s) then
              (let s = s\<lparr>current_question := butlast (current_question s)\<rparr>
               in displayTextInput (current_question s) s)
            else if keys_enter inp then
              (if 0 < length (current_question s)
               then submit_question responses (millis inp SeedEnter) (millis inp TimerEnter) s
               else s)
            else text_keys (keys_word inp) s)
         else s)
      in if btnA_wasPressed inp then
           (if 0 < length (current_question s)
            then submit_question responses (millis inp SeedButton) (millis inp TimerButton) s
            else s)
         else s)"

text \<open>
  Lines 692-718. \<^verbatim>\<open>Mic.record\<close> is given \<^verbatim>\<open>rec_data\<close> itself, offset 0, in every
  pass, and the seed is computed on \<^verbatim>\<open>(rec_data, record_size)\<close>.
\<close>

definition voice_input_tick :: "Response list \<Rightarrow> tick_input \<Rightarrow> app \<Rightarrow> outcome \<times> app" where
  "voice_input_tick responses inp s =
     (if mic_enabled s then
        (case mic_record inp of
           None \<Rightarrow> (Returned, s)
         | Some chunk \<Rightarrow>
             (let s = Mic_record 0 chunk s in
              if rec_record_idx s < record_number then
                (let s = s\<lparr>rec_record_idx := rec_record_idx s + 1\<rparr>;
                     s = s\<lparr>draw_record_idx := (rec_record_idx s + 2 ^ 32 - 2) mod 2 ^ 32\<rparr>;
                     progress = (rec_record_idx s * 100) div record_number
                 in (Returned, displayVoiceInput progress s))
              else
                (let s = Mic_end s in
                 case generateSeedFromAudio (take record_size (rec_data s)) (millis inp SeedAudio) of
                   Inl e \<Rightarrow> (Faulted e, s)
                 | Inr seed \<Rightarrow>
                     (let s = emit (Seed seed) s;
                          s = s\<lparr>current_response_idx := selectResponse responses seed\<rparr>;
                          s = s\<lparr>current_state := THINKING\<rparr>;
                          s = s\<lparr>state_timer := millis inp TimerVoice\<rparr>
                      in (Returned, displayThinking s)))))
      else (Returned, s))"

text \<open>Lines 720-731.\<close>

definition thinking_tick :: "Response list \<Rightarrow> tick_input \<Rightarrow> app \<Rightarrow> app" where
  "thinking_tick responses inp s =
     (let s = displayThinking s in
      if 2000 < millis inp ThinkingCheck - state_timer s then
        (let s = s\<lparr>current_state := SHOWING_ANSWER\<rparr>;
             s = s\<lparr>state_timer := millis inp ThinkingSet\<rparr>;
             s = s\<lparr>audio_played := False\<rparr>
         in displayAnswer responses (current_response_idx s) s)
      else s)"

text \<open>
  Lines 733-749. \<^verbatim>\<open>responses[current_response_idx]\<close> is an unchecked vector access:
  outside the vector it is undefined behaviour.
\<close>

definition showing_answer_tick :: "Response list \<Rightarrow> tick_input \<Rightarrow> app \<Rightarrow> outcome \<times> app" where
  "showing_answer_tick responses inp s =
     then_do
       (if \<not> audio_played s then
          (let s = s\<lparr>audio_played := True\<rparr> in
           if unat (current_response_idx s) < length responses then
             then_do
               (playResponseAudio inp (wav_path (responses ! unat (current_response_idx s))) s)
               (\<lambda>s. (Returned, s\<lparr>state_timer := millis inp AnswerReset\<rparr>))
           else (Faulted IndexOutOfRange, s))
        else (Returned, s))
       (\<lambda>s. (Returned,
          if btnA_wasPressed inp \<or> 5000 < millis inp AnswerCheck - state_timer s then
            (let s = s\<lparr>current_state := IDLE\<rparr>;
                 s = s\<lparr>current_question := []\<rparr>;
                 s = s\<lparr>audio_played := False\<rparr>
             in displayIdle s)
          else s))"

definition loop :: "Response list \<Rightarrow> tick_input \<Rightarrow> app \<Rightarrow> outcome \<times> app" where
  "loop responses inp s0 =
     (let s = cursor_blink inp s0 in
      case current_state s of
        IDLE \<Rightarrow> (Returned, idle_tick inp s)
      | TEXT_INPUT \<Rightarrow> (Returned, text_input_tick responses inp s)
      | VOICE_INPUT \<Rightarrow> voice_input_tick responses inp s
      | THINKING \<Rightarrow> (Returned, thinking_tick responses inp s)
      | SHOWING_ANSWER \<Rightarrow> showing_answer_tick responses inp s)"

text \<open>
  The Arduino runtime calls \<^verbatim>\<open>loop()\<close> again after each return; a pass that blocks or
  faults is the last one.
\<close>

fun run :: "Response list \<Rightarrow> tick_input list \<Rightarrow> app \<Rightarrow> outcome \<times> app" where
  "run responses [] s = (Returned, s)"
| "run responses (inp # inps) s = then_do (loop responses inp s) (run responses inps)"

subsection \<open>Reading the history\<close>

text \<open>The microphone and speaker switches after an event, as a pair (microphone, speaker).\<close>

fun audio_step :: "bool \<times> bool \<Rightarrow> event \<Rightarrow> bool \<times> bool" where
  "audio_step (m, p) MicBegin = (True, p)"
| "audio_step (m, p) MicEnd = (False, p)"
| "audio_step (m, p) SpeakerBegin = (m, True)"
| "audio_step (m, p) SpeakerEnd = (m, False)"
| "audio_step (m, p) e = (m, p)"

text \<open>
  At most one of the two is on, before the first event and after every event.
\<close>

fun exclusive_throughout :: "bool \<times> bool \<Rightarrow> event list \<Rightarrow> bool" where
  "exclusive_throughout hw [] = (\<not> (fst hw \<and> snd hw))"
| "exclusive_throughout hw (e # es) =
     (\<not> (fst hw \<and> snd hw) \<and> exclusive_throughout (audio_step hw e) es)"

text \<open>
  The microphone is off at every \<^verbatim>\<open>Speaker.begin()\<close> and every \<^verbatim>\<open>Speaker.playRaw\<close>.
\<close>

fun mic_released_before_playback :: "bool \<times> bool \<Rightarrow> event list \<Rightarrow> bool" where
  "mic_released_before_playback hw [] = True"
| "mic_released_before_playback hw (e # es) =
     ((if e = SpeakerBegin \<or> (case e of PlayRaw n \<Rightarrow> True | _ \<Rightarrow> False) then \<not> fst hw else True)
      \<and> mic_released_before_playback (audio_step hw e) es)"

text \<open>The seeds computed, and the offsets of the chunks recorded, in a history.\<close>

fun seeds_of :: "event list \<Rightarrow> u32 list" where
  "seeds_of [] = []"
| "seeds_of (Seed w # es) = w # seeds_of es"
| "seeds_of (e # es) = seeds_of es"

fun record_offsets :: "event list \<Rightarrow> nat list" where
  "record_offsets [] = []"
| "record_offsets (MicRecord k # es) = k # record_offsets es"
| "record_offsets (e # es) = record_offsets es"

subsection \<open>Seeds and the stored index across one pass\<close>

text \<open>The state of the machine, the stored index and the seeds computed so far.\<close>

definition seed_view :: "app \<Rightarrow> AppState \<times> u8 \<times> u32 list" where
  "seed_view s = (current_state s, current_response_idx s, seeds_of (log s))"

text \<open>
  How the seeds in the history and the stored index of \<open>s'\<close>, the state after a
  pass from \<open>s\<close>, relate to those of \<open>s\<close>.
\<close>

definition seed_discipline :: "Response list \<Rightarrow> tick_input \<Rightarrow> app \<Rightarrow> app \<Rightarrow> bool" where
  "seed_discipline rs inp s s' =
     (take (length (seeds_of (log s))) (seeds_of (log s')) = seeds_of (log s)
      \<and> length (seeds_of (log s')) \<le> length (seeds_of (log s)) + 2
      \<and> (seeds_of (log s') \<noteq> seeds_of (log s)
           \<longleftrightarrow> (current_state s = TEXT_INPUT \<or> current_state s = VOICE_INPUT)
                \<and> current_state s' = THINKING)
      \<and> (seeds_of (log s') = seeds_of (log s)
           \<longrightarrow> current_response_idx s' = current_response_idx s)
      \<and> (seeds_of (log s') \<noteq> seeds_of (log s)
           \<longrightarrow> current_response_idx s' = selectResponse rs (last (seeds_of (log s'))))
      \<and> (length (seeds_of (log s')) = length (seeds_of (log s)) + 2
           \<longrightarrow> current_state s = TEXT_INPUT \<and> keys_enter inp \<and> btnA_wasPressed inp)
      \<and> (current_state s = THINKING
           \<longrightarrow> current_state s' = THINKING \<or> current_state s' = SHOWING_ANSWER)
      \<and> (current_state s = SHOWING_ANSWER
           \<longrightarrow> current_state s' = SHOWING_ANSWER \<or> current_state s' = IDLE))"

text \<open>
  The state after the key \<open>a\<close> in Idle, and the state after its submission with
  Enter at clock 0.
\<close>

definition typed_a :: app where
  "typed_a = after_setup\<lparr>current_state := TEXT_INPUT, current_question := ''a'',
               log := [Display (TextInputScreen ''a'' True)]\<rparr>"

definition thinking_a :: app where
  "thinking_a = typed_a\<lparr>current_state := THINKING, log := log typed_a @ [Seed 1315915973, Display ThinkingScreen]\<rparr>"

subsection \<open>The audio switches across a run\<close>

text \<open>
  The switches after a history that starts with the microphone on and the speaker off,
  as \<^verbatim>\<open>setup()\<close> leaves them, and the facts kept across every step: the switches
  recorded in the state are those the history gives, at most one was on throughout, and
  the microphone was off whenever a playback started.
\<close>

definition switches_after :: "bool \<times> bool \<Rightarrow> event list \<Rightarrow> bool \<times> bool" where
  "switches_after hw evs = foldl audio_step hw evs"

definition audio_inv :: "app \<Rightarrow> bool" where
  "audio_inv s =
     (switches_after (True, False) (log s) = (mic_enabled s, speaker_enabled s)
      \<and> exclusive_throughout (True, False) (log s)
      \<and> mic_released_before_playback (True, False) (log s))"

text \<open>Between two passes the speaker is off as well.\<close>

definition quiet_inv :: "app \<Rightarrow> bool" where
  "quiet_inv s = (audio_inv s \<and> \<not> speaker_enabled s)"

text \<open>After a pass that blocks or faults the speaker may be on.\<close>

definition result_inv :: "outcome \<times> app \<Rightarrow> bool" where
  "result_inv r = (audio_inv (snd r) \<and> (fst r = Returned \<longrightarrow> \<not> speaker_enabled (snd r)))"

subsection \<open>The voice capture across a run\<close>

text \<open>What the passes of the voice input read and change.\<close>

definition voice_view ::
  "app \<Rightarrow> AppState \<times> bool \<times> u32 \<times> nat \<times> i16 list \<times> nat list \<times> u32 list" where
  "voice_view s =
     (current_state s, mic_enabled s, last_cursor_blink s, rec_record_idx s, rec_data s,
      record_offsets (log s), seeds_of (log s))"

subsection \<open>Concrete inputs\<close>

text \<open>A response with a text and neither audio nor bitmap, as in the default configuration.\<close>

definition plain_response :: Response where
  "plain_response = \<lparr>text_str = ''Yes'', wav_path = [], bitmap_path = []\<rparr>"

text \<open>
  A pass in which nothing happens outside: no key, no button, no microphone data, the
  clock at 0, no file on the card.
\<close>

definition quiet_input :: tick_input where
  "quiet_input =
     \<lparr>kb_isChange = False,
      kb_isPressed = False,
      keys_word = [],
      keys_del = False,
      keys_enter = False,
      btnA_wasPressed = False,
      mic_record = None,
      millis = (\<lambda>site. 0),
      sd_open = (\<lambda>path. None),
      malloc_ok = True,
      isPlaying = (\<lambda>k. False)\<rparr>"

text \<open>The key \<open>a\<close> is pressed.\<close>

definition type_a :: tick_input where
  "type_a = quiet_input\<lparr>kb_isChange := True, kb_isPressed := True, keys_word := ''a''\<rparr>"

text \<open>
  Enter and the primary button arrive in the same pass; the clock has moved on by one
  millisecond when the button branch computes its seed.
\<close>

definition enter_and_button :: tick_input where
  "enter_and_button =
     quiet_input\<lparr>kb_isChange := True, kb_isPressed := True, keys_enter := True,
       btnA_wasPressed := True,
       millis := (\<lambda>site. if site = SeedButton then 1 else 0)\<rparr>"

text \<open>The primary button is pressed.\<close>

definition press_button :: tick_input where
  "press_button = quiet_input\<lparr>btnA_wasPressed := True\<rparr>"

text \<open>\<^verbatim>\<open>Mic.record\<close> returns true and delivers a chunk of samples of value \<open>v\<close>.\<close>

definition recording :: "i16 \<Rightarrow> tick_input" where
  "recording v = quiet_input\<lparr>mic_record := Some (\<lambda>i. v)\<rparr>"

text \<open>The card holds a file of 10 bytes, shorter than a WAV header, under every name.\<close>

definition short_file_input :: tick_input where
  "short_file_input =
     quiet_input\<lparr>sd_open := (\<lambda>path. Some \<lparr>file_size = 10, bytes_read = 0\<rparr>)\<rparr>"

text \<open>
  The card holds a WAV file with 100 bytes of samples under every name, and the speaker
  reports the end of the playback at the third question.
\<close>

definition wav_file_input :: tick_input where
  "wav_file_input =
     quiet_input\<lparr>sd_open := (\<lambda>path. Some \<lparr>file_size = 144, bytes_read = 100\<rparr>),
       isPlaying := (\<lambda>k. k < 2)\<rparr>"

text \<open>A response with a clip.\<close>

definition wav_response :: Response where
  "wav_response = \<lparr>text_str = ''Yes'', wav_path = ''/audio/yes.wav'', bitmap_path = []\<rparr>"

text \<open>Enter is pressed.\<close>

definition press_enter :: tick_input where
  "press_enter = quiet_input\<lparr>kb_isChange := True, kb_isPressed := True, keys_enter := True\<rparr>"

text \<open>Three seconds later, with the WAV file on the card.\<close>

definition late_input :: tick_input where
  "late_input = wav_file_input\<lparr>millis := (\<lambda>site. 3000)\<rparr>"

section \<open>Properties of the seed engine\<close>

lemma hash_loop_foldl:
  "hash_loop h q = foldl djb2_update h q"
proof (induction q arbitrary: h)
  case Nil
  show ?case by simp
next
  case (Cons c cs)
  have "push_bit 5 h + h = h * 33"
    by (simp add: push_bit_eq_mult algebra_simps)
  then show ?case
    using Cons.IH by (simp only: hash_loop.simps foldl_Cons djb2_update_def)
qed

text \<open>
  Claim C2, as the specification words it: for every question and clock value the
  text seed is the finisher applied to the clock XOR-ed into an accumulator that starts
  at 5381 and is updated by \<open>acc = acc*33 + acc + charCode\<close> for each lower-cased
  character. The code multiplies by 33 once (\<open>(hash << 5) + hash\<close>), so the two
  differ already on the one-letter question \<open>a\<close> at clock 0.
\<close>

theorem C2_spec_update_counterexample:
  "generateSeedFromText ''a'' 0 \<noteq> spec_seedFromText ''a'' 0"
proof -
  have code: "generateSeedFromText ''a'' 0 = 1315915973"
    by (simp add: generateSeedFromText_def tolower_code_def Let_def)
  have spec: "spec_seedFromText ''a'' 0 = 1134619604"
    by (simp add: spec_seedFromText_def spec_text_update_def finisher_def
          tolower_code_def Let_def)
  show ?thesis
    by (simp add: code spec)
qed

text \<open>
  Claim C2, amended: for every question string and every millisecond clock value,
  \<open>generateSeedFromText\<close> starts from 5381, updates \<open>acc = acc*33 + charCode\<close>
  for each character folded to lower case, XORs the clock value in, and applies the
  finisher \<open>acc ^= acc>>16; acc *= 0x85EBCA6B; acc ^= acc>>13\<close>.
\<close>

theorem C2_generateSeedFromText_djb2:
  "generateSeedFromText question clock = djb2_seedFromText question clock"
  by (simp add: generateSeedFromText_def djb2_seedFromText_def finisher_def
        hash_loop_foldl Let_def)

subsection \<open>Response selection\<close>

lemma selectResponse_unat:
  "responses \<noteq> [] \<Longrightarrow>
   unat (selectResponse responses seed) = (unat seed mod length responses) mod 256"
  by (simp add: selectResponse_def unat_of_nat)

text \<open>
  Claim C6, as stated: for every 32-bit seed and every response count of at least 1,
  \<open>selectResponse\<close> returns \<open>seed mod responseCount\<close>. With 257 responses and seed
  256 the remainder is 256, which the \<^verbatim>\<open>uint8_t\<close> result cannot hold: the function
  returns 0.
\<close>

theorem C6_selectResponse_counterexample:
  "unat (selectResponse (replicate 257 plain_response) 256)
     \<noteq> unat (256 :: u32) mod length (replicate 257 plain_response)"
  by (simp add: selectResponse_def)

text \<open>
  Claim C6, amended: for every 32-bit seed and every response count of at least 1,
  \<open>selectResponse\<close> returns a value in \<open>[0, responseCount)\<close>; the value equals
  \<open>seed mod responseCount\<close> whenever the response count is at most 256.
\<close>

theorem C6_selectResponse_range:
  "responses \<noteq> [] \<Longrightarrow>
   unat (selectResponse responses seed) < length responses
   \<and> (length responses \<le> 256 \<longrightarrow>
        unat (selectResponse responses seed) = unat seed mod length responses)"
proof -
  assume ne: "responses \<noteq> []"
  let ?n = "length responses"
  have pos: "0 < ?n" using ne by simp
  have u: "unat (selectResponse responses seed) = (unat seed mod ?n) mod 256"
    by (rule selectResponse_unat [OF ne])
  have lt: "unat seed mod ?n < ?n" using pos by simp
  have "(unat seed mod ?n) mod 256 \<le> unat seed mod ?n" by simp
  with lt u have in_range: "unat (selectResponse responses seed) < ?n" by linarith
  have "?n \<le> 256 \<Longrightarrow> (unat seed mod ?n) mod 256 = unat seed mod ?n"
    using lt by simp
  with u in_range show ?thesis by simp
qed

theorem C6_selectResponse_range_witness:
  "[plain_response, plain_response, plain_response] \<noteq> []
   \<and> unat (selectResponse [plain_response, plain_response, plain_response] 1000) < 3
   \<and> unat (selectResponse [plain_response, plain_response, plain_response] 1000) = 1"
  using C6_selectResponse_range [of "[plain_response, plain_response, plain_response]" 1000]
  by simp

text \<open>
  Claim C9: \<open>selectResponse\<close> returns an unsigned 8-bit integer, so for every seed and
  every response count of at least 1 its result is \<open>(seed mod responseCount) mod 256\<close>;
  the mapping \<open>seed mod responseCount\<close> is realized for all seeds exactly when the
  response count is at most 256.
\<close>

theorem C9_selectResponse_low_byte:
  "responses \<noteq> [] \<Longrightarrow>
   unat (selectResponse responses seed) = (unat seed mod length responses) mod 256
   \<and> ((\<forall>s. unat (selectResponse responses s) = unat s mod length responses)
        \<longleftrightarrow> length responses \<le> 256)"
proof -
  assume ne: "responses \<noteq> []"
  let ?n = "length responses"
  have pos: "0 < ?n" using ne by simp
  have u: "\<And>s. unat (selectResponse responses s) = (unat s mod ?n) mod 256"
    by (rule selectResponse_unat [OF ne])
  have small: "?n \<le> 256 \<Longrightarrow> (\<forall>s. unat (selectResponse responses s) = unat s mod ?n)"
  proof
    fix s :: u32
    assume le: "?n \<le> 256"
    have "unat s mod ?n < ?n" using pos by simp
    with le have "(unat s mod ?n) mod 256 = unat s mod ?n" by simp
    with u show "unat (selectResponse responses s) = unat s mod ?n" by simp
  qed
  have big: "\<not> ?n \<le> 256 \<Longrightarrow> \<not> (\<forall>s. unat (selectResponse responses s) = unat s mod ?n)"
  proof
    assume gt: "\<not> ?n \<le> 256"
    assume all: "\<forall>s. unat (selectResponse responses s) = unat s mod ?n"
    have m: "unat (256 :: u32) mod ?n = 256" using gt by simp
    have "unat (selectResponse responses 256) = (unat (256 :: u32) mod ?n) mod 256" by (rule u)
    then have "unat (selectResponse responses 256) = 0" by (simp only: m) simp
    moreover have "unat (selectResponse responses 256) = 256" using all m by simp
    ultimately show False by simp
  qed
  from u small big show ?thesis by blast
qed

theorem C9_selectResponse_low_byte_witness:
  "replicate 300 plain_response \<noteq> []
   \<and> unat (selectResponse (replicate 300 plain_response) 299) = 43
   \<and> \<not> (\<forall>s. unat (selectResponse (replicate 300 plain_response) s) = unat s mod 300)"
  using C9_selectResponse_low_byte [of "replicate 300 plain_response" 299] by simp

text \<open>
  Claim C10: \<open>selectResponse\<close> is total outside the precondition too: with no response
  at all it returns 0 and divides nothing.
\<close>

theorem C10_selectResponse_empty:
  "selectResponse [] seed = 0"
  by (simp add: selectResponse_def)

section \<open>Properties of the capture buffer\<close>

text \<open>
  Claim C3, as stated: the capacity of the capture buffer is
  \<open>captureDurationSeconds \<times> sampleRate\<close>, 2 s at 16 kHz, 32,000 samples. The code
  allocates \<open>record_size\<close> samples, which is not that number.
\<close>

theorem C3_capacity_counterexample:
  "record_size \<noteq> 2 * record_samplerate"
  by (simp add: record_size_def record_number_def record_length_def record_samplerate_def)

text \<open>
  Claim C3, amended: the capacity of the capture buffer is
  \<open>record_number \<times> record_length\<close> = 134 chunks of 240 samples = 32,160 signed 16-bit
  samples: the smallest whole number of chunks that holds 2 s at 16 kHz (32,000 samples).
\<close>

theorem C3_capacity_whole_chunks:
  "record_size = record_number * record_length \<and> record_size = 32160
   \<and> length (rec_data after_setup) = record_size
   \<and> 2 * record_samplerate \<le> record_size
   \<and> record_size - record_length < 2 * record_samplerate"
  by (simp add: after_setup_def record_size_def record_number_def record_length_def
        record_samplerate_def)

section \<open>Properties of the audio seed\<close>

subsection \<open>The integer square root\<close>

lemma sqrt_search_correct:
  "r * r \<le> n \<Longrightarrow> n < (r + 2 ^ k) * (r + 2 ^ k) \<Longrightarrow>
   sqrt_search k n r * sqrt_search k n r \<le> n
   \<and> n < (sqrt_search k n r + 1) * (sqrt_search k n r + 1)"
proof (induction k arbitrary: r)
  case 0
  then show ?case by simp
next
  case (Suc k)
  show ?case
  proof (cases "(r + 2 ^ k) * (r + 2 ^ k) \<le> n")
    case True
    have "r + 2 ^ Suc k = r + 2 ^ k + 2 ^ k" by simp
    with Suc.prems(2) have "n < (r + 2 ^ k + 2 ^ k) * (r + 2 ^ k + 2 ^ k)" by (simp only:)
    with True Suc.IH [of "r + 2 ^ k"] show ?thesis by simp
  next
    case False
    then have "n < (r + 2 ^ k) * (r + 2 ^ k)" by simp
    with False Suc.prems(1) Suc.IH [of r] show ?thesis by simp
  qed
qed

lemma isqrt_correct:
  assumes "n < 2 ^ 64"
  shows "isqrt n * isqrt n \<le> n \<and> n < (isqrt n + 1) * (isqrt n + 1)"
proof -
  have "(2::nat) ^ 64 = (0 + 2 ^ 32) * (0 + 2 ^ 32)" by simp
  with assms have "n < (0 + 2 ^ 32) * (0 + 2 ^ 32)" by simp
  then show ?thesis
    unfolding isqrt_def by (intro sqrt_search_correct) simp_all
qed

lemma isqrt_real:
  assumes "n < 2 ^ 64"
  shows "isqrt n = nat \<lfloor>sqrt (real n)\<rfloor>"
proof -
  let ?q = "isqrt n"
  from isqrt_correct [OF assms]
  have lo: "?q * ?q \<le> n" and hi: "n < (?q + 1) * (?q + 1)" by simp_all
  have "real ?q * real ?q \<le> real n"
    using lo by (metis of_nat_le_iff of_nat_mult)
  then have "(real ?q)\<^sup>2 \<le> real n" by (simp add: power2_eq_square)
  then have le: "real ?q \<le> sqrt (real n)" by (rule real_le_rsqrt)
  have "real n < real (?q + 1) * real (?q + 1)"
    using hi by (metis of_nat_less_iff of_nat_mult)
  then have "real n < (real (?q + 1))\<^sup>2" by (simp add: power2_eq_square)
  then have lt: "sqrt (real n) < real (?q + 1)"
    by (intro real_less_lsqrt) simp_all
  have "\<lfloor>sqrt (real n)\<rfloor> = int ?q"
    using le lt by (intro floor_unique) simp_all
  then show ?thesis by simp
qed

lemma sqrt_search_numeral:
  "sqrt_search (numeral k) n r =
     sqrt_search (pred_numeral k) n
       (if (r + 2 ^ pred_numeral k) * (r + 2 ^ pred_numeral k) \<le> n
        then r + 2 ^ pred_numeral k else r)"
  by (simp add: numeral_eq_Suc)

subsection \<open>The three loops against the specification's statistics\<close>

lemma sign_changes_simps:
  "sign_changes [] = 0"
  "sign_changes [a] = 0"
  "sign_changes (a # b # xs) =
     (if (sint a < 0) \<noteq> (sint b < 0) then 1 else 0) + sign_changes (b # xs)"
  by (simp_all add: sign_changes_def)

lemma sint16_bounds: "- 32768 \<le> sint (x :: i16) \<and> sint x < 32768"
  using sint_ge [of x] sint_lt [of x] by simp

lemma sint16_not_min: "x \<noteq> (- 32768 :: i16) \<Longrightarrow> - 32768 < sint x"
proof -
  assume ne: "x \<noteq> - 32768"
  have "sint x \<noteq> - 32768"
  proof
    assume "sint x = - 32768"
    then have "sint x = sint (- 32768 :: i16)" by simp
    then have "x = - 32768" by (rule signed_word_eqI)
    with ne show False by simp
  qed
  then show ?thesis
    using sint16_bounds [of x] by simp
qed

lemma sint_abs16:
  "x \<noteq> (- 32768 :: i16) \<Longrightarrow> sint (word_of_int \<bar>sint x\<bar> :: i16) = \<bar>sint x\<bar>"
  using sint16_not_min [of x] sint16_bounds [of x]
  by (simp add: sint_sbintrunc' signed_take_bit_int_eq_self)

lemma peak_loop_spec:
  "\<forall>x \<in> set xs. x \<noteq> - 32768 \<Longrightarrow> 0 \<le> sint p \<Longrightarrow>
   0 \<le> sint (peak_loop p xs)
   \<and> nat (sint (peak_loop p xs)) = max (nat (sint p)) (peak_amplitude xs)"
proof (induction xs arbitrary: p)
  case Nil
  then show ?case by (simp add: peak_amplitude_def)
next
  case (Cons x xs)
  let ?a = "word_of_int \<bar>sint x\<bar> :: i16"
  let ?p = "if sint p < sint ?a then ?a else p"
  have x: "x \<noteq> - 32768" and rest: "\<forall>y \<in> set xs. y \<noteq> - 32768"
    using Cons.prems(1) by simp_all
  have a: "sint ?a = \<bar>sint x\<bar>" by (rule sint_abs16 [OF x])
  have p0: "0 \<le> sint ?p" using Cons.prems(2) a by simp
  have pm: "nat (sint ?p) = max (nat (sint p)) (nat \<bar>sint x\<bar>)"
    using Cons.prems(2) a by auto
  have pa: "peak_amplitude (x # xs) = max (nat \<bar>sint x\<bar>) (peak_amplitude xs)"
    by (simp add: peak_amplitude_def)
  from Cons.IH [OF rest p0]
  have "0 \<le> sint (peak_loop ?p xs)"
    and "nat (sint (peak_loop ?p xs)) = max (nat (sint ?p)) (peak_amplitude xs)"
    by simp_all
  then show ?case
    by (simp add: Let_def pm pa max.assoc)
qed

lemma zero_crossings_loop_spec:
  "zero_crossings_loop zc xs = zc + of_nat (sign_changes xs)"
  by (induction zc xs rule: zero_crossings_loop.induct)
     (auto simp: sign_changes_simps)

lemma sign_changes_le: "sign_changes xs \<le> length xs - 1"
proof -
  have "sign_changes xs \<le> length (zip xs (tl xs))"
    unfolding sign_changes_def by (rule length_filter_le)
  then show ?thesis by simp
qed

lemma square16_bound: "nat (sint (x :: i16) * sint x) \<le> 2 ^ 30"
proof -
  have "\<bar>sint x\<bar> \<le> 32768" using sint16_bounds [of x] by arith
  then have "\<bar>sint x\<bar> * \<bar>sint x\<bar> \<le> 32768 * 32768"
    by (intro mult_mono) simp_all
  then have "sint x * sint x \<le> 32768 * 32768"
    by (simp add: abs_mult_self_eq)
  then show ?thesis by simp
qed

lemma sum_squares_bound:
  "sum_list (map (\<lambda>x. nat (sint (x :: i16) * sint x)) xs) \<le> length xs * 2 ^ 30"
proof (induction xs)
  case Nil
  then show ?case by simp
next
  case (Cons x xs)
  then show ?case using square16_bound [of x] by simp
qed

lemma sum_squares_loop_spec:
  "sum_squares_loop acc xs = acc + of_nat (sum_list (map (\<lambda>x. nat (sint x * sint x)) xs))"
proof (induction xs arbitrary: acc)
  case Nil
  then show ?case by simp
next
  case (Cons x xs)
  have "(word_of_int (sint x * sint x) :: u64) = of_nat (nat (sint x * sint x))"
    by simp
  then show ?case by (simp add: Cons.IH algebra_simps)
qed

lemma generateSeedFromAudio_agrees:
  assumes ne: "xs \<noteq> []"
    and len: "length xs \<le> 65536"
    and nomin: "\<forall>x \<in> set xs. x \<noteq> - 32768"
  shows "generateSeedFromAudio xs clock = Inr (spec_seedFromAudio xs clock)"
proof -
  let ?S = "sum_list (map (\<lambda>x. nat (sint x * sint x)) xs)"
  have pk: "0 \<le> sint (peak_loop 0 xs)"
    and pk': "nat (sint (peak_loop 0 xs)) = peak_amplitude xs"
    using peak_loop_spec [OF nomin, of 0] by simp_all
  have "(word_of_int (sint (peak_loop 0 xs)) :: u32) = of_nat (nat (sint (peak_loop 0 xs)))"
    using pk by (simp only: of_nat_nat)
  then have peak: "(scast (peak_loop 0 xs) :: u32) = of_nat (peak_amplitude xs)"
    by (simp only: scast_eq pk')
  have "sign_changes xs < 65536"
    using sign_changes_le [of xs] len ne by (cases xs) simp_all
  then have zc: "(ucast (zero_crossings_loop 0 xs) :: u32) = of_nat (sign_changes xs)"
    by (simp add: zero_crossings_loop_spec unsigned_of_nat take_bit_nat_eq_self)
  have "length xs * 2 ^ 30 \<le> 65536 * (2 ^ 30 :: nat)"
    using len by (rule mult_le_mono1)
  with sum_squares_bound [of xs] have "?S \<le> 65536 * 2 ^ 30"
    by (rule le_trans)
  then have "?S < 2 ^ 64" by simp
  then have sm: "unat (sum_squares_loop 0 xs) = ?S"
    by (simp add: sum_squares_loop_spec unat_of_nat)
  show ?thesis
    using ne
    by (simp add: generateSeedFromAudio_def spec_seedFromAudio_def rms_energy_def
          peak zc sm Let_def xor.assoc)
qed

subsection \<open>The three loops on a constant buffer\<close>

lemma peak_loop_min: "peak_loop 0 (replicate n (- 32768)) = 0"
  by (induction n) (simp_all add: Let_def)

lemma sum_squares_loop_replicate:
  "sum_squares_loop acc (replicate n x) = acc + of_nat n * word_of_int (sint x * sint x)"
  by (induction n arbitrary: acc) (simp_all add: algebra_simps)

lemma peak_amplitude_replicate:
  "0 < n \<Longrightarrow> peak_amplitude (replicate n x) = nat \<bar>sint x\<bar>"
  unfolding peak_amplitude_def
proof (induction n)
  case 0
  then show ?case by simp
next
  case (Suc n)
  then show ?case by (cases n) simp_all
qed

lemma sign_changes_const: "sign_changes (x # replicate n x) = 0"
  by (induction n) (simp_all add: sign_changes_simps)

section \<open>Properties of the playback\<close>

lemmas periph_defs = emit_def printf_def Mic_begin_def Mic_end_def Speaker_begin_def Speaker_end_def

text \<open>
  Claim C8, as stated: with an empty clip reference \<open>playResponseAudio\<close> returns
  immediately with no side effects. The code prints a line on the serial console in
  that case too, as it does when the file is missing or too short.
\<close>

theorem C8_empty_reference_prints_counterexample:
  "snd (playResponseAudio quiet_input [] after_setup) \<noteq> after_setup
   \<and> log (snd (playResponseAudio quiet_input [] after_setup)) = [Printf ''No audio file specified'']"
  by (simp add: playResponseAudio_def printf_def emit_def after_setup_def)

text \<open>
  Claim C8, amended: response audio playback degrades gracefully. If the clip reference
  is empty, \<open>playResponseAudio\<close> prints one diagnostic line and returns immediately
  with no other side effect; if the referenced file cannot be opened or is smaller than
  44 bytes, it logs and returns immediately as if absent. In no case does it hand an
  error to the state machine: it never faults, it fails to return only when the speaker
  never reports the end of a playback it has started, and apart from the history and the
  two audio switches it leaves every variable of the program as it was.
\<close>

theorem C8_playResponseAudio_degrades:
  "(path = [] \<longrightarrow>
      playResponseAudio inp path s
        = (Returned, s\<lparr>log := log s @ [Printf ''No audio file specified'']\<rparr>))
   \<and> (path \<noteq> [] \<and> sd_open inp path = None \<longrightarrow>
      playResponseAudio inp path s
        = (Returned, s\<lparr>log := log s @ [Printf ''Audio file not found'']\<rparr>))
   \<and> (path \<noteq> [] \<and> sd_open inp path = Some file \<and> file_size file < 44 \<longrightarrow>
      playResponseAudio inp path s
        = (Returned, s\<lparr>log := log s @ [Printf ''Invalid WAV file (too small)'']\<rparr>))
   \<and> fst (playResponseAudio inp path s) \<noteq> Faulted e
   \<and> (fst (playResponseAudio inp path s) = Blocked \<longrightarrow> wait_playing (isPlaying inp) 0 = None)
   \<and> (snd (playResponseAudio inp path s))
        \<lparr>log := log s, mic_enabled := mic_enabled s, speaker_enabled := speaker_enabled s\<rparr> = s"
  by (auto simp: playResponseAudio_def periph_defs Let_def split: option.splits)

theorem C8_playResponseAudio_degrades_witness:
  "playResponseAudio quiet_input [] after_setup
     = (Returned, after_setup\<lparr>log := [Printf ''No audio file specified'']\<rparr>)
   \<and> playResponseAudio quiet_input ''/audio/yes.wav'' after_setup
     = (Returned, after_setup\<lparr>log := [Printf ''Audio file not found'']\<rparr>)
   \<and> playResponseAudio short_file_input ''/audio/yes.wav'' after_setup
     = (Returned, after_setup\<lparr>log := [Printf ''Invalid WAV file (too small)'']\<rparr>)
   \<and> fst (playResponseAudio wav_file_input ''/audio/yes.wav'' after_setup) = Returned"
proof -
  have l: "log after_setup = []" by (simp add: after_setup_def)
  have o1: "sd_open quiet_input ''/audio/yes.wav'' = None"
    by (simp add: quiet_input_def)
  have o2: "sd_open short_file_input ''/audio/yes.wav'' = Some \<lparr>file_size = 10, bytes_read = 0\<rparr>"
    by (simp add: short_file_input_def quiet_input_def)
  have w: "wait_playing (isPlaying wav_file_input) 0 = Some 2"
    by (simp add: wav_file_input_def quiet_input_def wait_playing.simps)
  have b: "fst (playResponseAudio wav_file_input ''/audio/yes.wav'' after_setup) \<noteq> Blocked"
    using C8_playResponseAudio_degrades [of "''/audio/yes.wav''" wav_file_input after_setup
        "\<lparr>file_size = 10, bytes_read = 0\<rparr>" DivideByZero] w
    by auto
  have f: "\<And>e. fst (playResponseAudio wav_file_input ''/audio/yes.wav'' after_setup) \<noteq> Faulted e"
    using C8_playResponseAudio_degrades [of "''/audio/yes.wav''" wav_file_input after_setup
        "\<lparr>file_size = 10, bytes_read = 0\<rparr>"]
    by blast
  have r: "fst (playResponseAudio wav_file_input ''/audio/yes.wav'' after_setup) = Returned"
    using b f by (cases "fst (playResponseAudio wav_file_input ''/audio/yes.wav'' after_setup)") auto
  show ?thesis
    using C8_playResponseAudio_degrades [of "[]" quiet_input after_setup "\<lparr>file_size = 10, bytes_read = 0\<rparr>" DivideByZero]
      C8_playResponseAudio_degrades [of "''/audio/yes.wav''" quiet_input after_setup
        "\<lparr>file_size = 10, bytes_read = 0\<rparr>" DivideByZero]
      C8_playResponseAudio_degrades [of "''/audio/yes.wav''" short_file_input after_setup
        "\<lparr>file_size = 10, bytes_read = 0\<rparr>" DivideByZero]
      l o1 o2 r
    by simp
qed

section \<open>Properties of the state machine\<close>

subsection \<open>Where seeds are computed\<close>

lemmas display_defs = displayIdle_def displayTextInput_def displayVoiceInput_def
  displayThinking_def displayAnswer_def

lemma seeds_of_append: "seeds_of (xs @ ys) = seeds_of xs @ seeds_of ys"
  by (induction xs rule: seeds_of.induct) simp_all

lemma cursor_blink_view: "seed_view (cursor_blink inp s) = seed_view s"
  by (simp add: seed_view_def cursor_blink_def display_defs emit_def Let_def seeds_of_append)

lemma idle_keys_view:
  "seed_view (idle_keys ws s) = seed_view s
   \<or> seed_view (idle_keys ws s) = (TEXT_INPUT, current_response_idx s, seeds_of (log s))"
  by (induction ws) (simp_all add: seed_view_def display_defs emit_def Let_def seeds_of_append)

lemma idle_tick_view:
  "seeds_of (log (idle_tick inp s)) = seeds_of (log s)
   \<and> current_response_idx (idle_tick inp s) = current_response_idx s
   \<and> (current_state s = IDLE \<longrightarrow> current_state (idle_tick inp s) \<noteq> THINKING)"
  using idle_keys_view [of "keys_word inp" s]
  by (auto simp: idle_tick_def seed_view_def display_defs periph_defs Let_def seeds_of_append)

lemma text_keys_view: "seed_view (text_keys ws s) = seed_view s"
  by (induction ws arbitrary: s)
     (simp_all add: seed_view_def display_defs emit_def Let_def seeds_of_append)

lemma submit_question_view:
  "seed_view (submit_question rs c t s)
     = (THINKING, selectResponse rs (generateSeedFromText (current_question s) c),
        seeds_of (log s) @ [generateSeedFromText (current_question s) c])"
  by (simp add: seed_view_def submit_question_def display_defs emit_def Let_def seeds_of_append)

lemmas text_keys_simps = text_keys_view [unfolded seed_view_def prod.inject]
lemmas cursor_blink_simps = cursor_blink_view [unfolded seed_view_def prod.inject]

lemma playResponseAudio_view:
  "seed_view (snd (playResponseAudio inp path s)) = seed_view s"
  by (auto simp: seed_view_def playResponseAudio_def periph_defs Let_def seeds_of_append
        split: option.splits)

lemmas playResponseAudio_simps = playResponseAudio_view [unfolded seed_view_def prod.inject]

lemma idle_tick_seeds:
  "current_state s = IDLE \<Longrightarrow> seed_discipline rs inp s (idle_tick inp s)"
  using idle_tick_view [of inp s] by (simp add: seed_discipline_def)

lemma text_input_tick_seeds:
  "current_state s = TEXT_INPUT \<Longrightarrow> seed_discipline rs inp s (text_input_tick rs inp s)"
  by (auto simp: seed_discipline_def text_input_tick_def submit_question_def display_defs
        emit_def Let_def seeds_of_append text_keys_simps)

lemma voice_input_tick_seeds:
  "current_state s = VOICE_INPUT \<Longrightarrow>
   seed_discipline rs inp s (snd (voice_input_tick rs inp s))"
  by (auto simp: seed_discipline_def voice_input_tick_def Mic_record_def display_defs
        periph_defs Let_def seeds_of_append split: option.splits sum.splits)

lemma thinking_tick_seeds:
  "current_state s = THINKING \<Longrightarrow> seed_discipline rs inp s (thinking_tick rs inp s)"
  by (auto simp: seed_discipline_def thinking_tick_def display_defs emit_def Let_def
        seeds_of_append)

lemma showing_answer_tick_seeds:
  "current_state s = SHOWING_ANSWER \<Longrightarrow>
   seed_discipline rs inp s (snd (showing_answer_tick rs inp s))"
  by (auto simp: seed_discipline_def showing_answer_tick_def then_do_def display_defs
        emit_def Let_def seeds_of_append playResponseAudio_simps
        split: outcome.splits)

lemma seed_discipline_blink:
  "seed_discipline rs inp (cursor_blink inp s) s' \<Longrightarrow> seed_discipline rs inp s s'"
  by (simp add: seed_discipline_def cursor_blink_simps)

lemma loop_seeds: "seed_discipline rs inp s (snd (loop rs inp s))"
proof (rule seed_discipline_blink)
  let ?b = "cursor_blink inp s"
  show "seed_discipline rs inp ?b (snd (loop rs inp s))"
  proof (cases "current_state ?b")
    case IDLE
    then show ?thesis using idle_tick_seeds [of ?b rs inp] by (simp add: loop_def)
  next
    case TEXT_INPUT
    then show ?thesis using text_input_tick_seeds [of ?b rs inp] by (simp add: loop_def)
  next
    case VOICE_INPUT
    then show ?thesis using voice_input_tick_seeds [of ?b rs inp] by (simp add: loop_def)
  next
    case THINKING
    then show ?thesis using thinking_tick_seeds [of ?b rs inp] by (simp add: loop_def)
  next
    case SHOWING_ANSWER
    then show ?thesis using showing_answer_tick_seeds [of ?b rs inp] by (simp add: loop_def)
  qed
qed

lemmas input_defs = quiet_input_def type_a_def enter_and_button_def press_button_def
  recording_def short_file_input_def wav_file_input_def

lemmas tick_defs = loop_def cursor_blink_def idle_tick_def text_input_tick_def
  submit_question_def voice_input_tick_def thinking_tick_def showing_answer_tick_def
  then_do_def

lemma seed_a_0: "generateSeedFromText ''a'' 0 = 1315915973"
  by (simp add: generateSeedFromText_def tolower_code_def Let_def)

lemma seed_a_1: "generateSeedFromText ''a'' 1 = 3563037919"
  by (simp add: generateSeedFromText_def tolower_code_def Let_def)

text \<open>
  Claim C7, as stated: the seed and the response index are computed exactly once per
  interaction. From the state after \<^verbatim>\<open>setup()\<close>, the key \<open>a\<close> and then a pass in
  which both Enter and the primary button are seen make one interaction in which the
  seed is computed twice, with two clock readings: the Enter branch and the button
  branch of the text input both submit, and the second result replaces the first.
\<close>

theorem C7_double_submit_counterexample:
  "current_state (snd (run [plain_response] [type_a, enter_and_button] after_setup)) = THINKING
   \<and> seeds_of (log (snd (run [plain_response] [type_a, enter_and_button] after_setup)))
       = [1315915973, 3563037919]"
  by (simp add: tick_defs input_defs display_defs emit_def after_setup_def printable_def Let_def
        seed_a_0 seed_a_1 del: hash_loop.simps)

text \<open>
  Claim C7, amended: the seed and the response index are computed only in the pass
  that takes TextInput to Thinking (text path) or VoiceInput to Thinking at the end of the
  capture (audio path), and in every such pass: at least once and at most twice there,
  twice only when Enter and the primary button are seen in the same pass of the text
  input, and the stored index is the one selected by the last seed computed. A pass that
  computes no seed leaves the stored index alone; no pass of the Thinking or ShowingAnswer
  states computes a seed or modifies the stored response index, and these states lead
  only to ShowingAnswer and to Idle.
\<close>

theorem C7_seed_only_at_transition:
  "take (length (seeds_of (log s))) (seeds_of (log (snd (loop rs inp s)))) = seeds_of (log s)
   \<and> length (seeds_of (log (snd (loop rs inp s)))) \<le> length (seeds_of (log s)) + 2
   \<and> (seeds_of (log (snd (loop rs inp s))) \<noteq> seeds_of (log s)
        \<longleftrightarrow> (current_state s = TEXT_INPUT \<or> current_state s = VOICE_INPUT)
             \<and> current_state (snd (loop rs inp s)) = THINKING)
   \<and> (seeds_of (log (snd (loop rs inp s))) = seeds_of (log s)
        \<longrightarrow> current_response_idx (snd (loop rs inp s)) = current_response_idx s)
   \<and> (seeds_of (log (snd (loop rs inp s))) \<noteq> seeds_of (log s)
        \<longrightarrow> current_response_idx (snd (loop rs inp s))
              = selectResponse rs (last (seeds_of (log (snd (loop rs inp s))))))
   \<and> (length (seeds_of (log (snd (loop rs inp s)))) = length (seeds_of (log s)) + 2
        \<longrightarrow> current_state s = TEXT_INPUT \<and> keys_enter inp \<and> btnA_wasPressed inp)
   \<and> (current_state s = THINKING \<or> current_state s = SHOWING_ANSWER
        \<longrightarrow> seeds_of (log (snd (loop rs inp s))) = seeds_of (log s)
            \<and> current_response_idx (snd (loop rs inp s)) = current_response_idx s)
   \<and> (current_state s = THINKING
        \<longrightarrow> current_state (snd (loop rs inp s)) = THINKING
            \<or> current_state (snd (loop rs inp s)) = SHOWING_ANSWER)
   \<and> (current_state s = SHOWING_ANSWER
        \<longrightarrow> current_state (snd (loop rs inp s)) = SHOWING_ANSWER
            \<or> current_state (snd (loop rs inp s)) = IDLE)"
  using loop_seeds [of rs inp s] unfolding seed_discipline_def by auto

text \<open>The two states of the witness below are reached from the end of \<^verbatim>\<open>setup()\<close>.\<close>

lemma typed_a_reached:
  "run rs [type_a] after_setup = (Returned, typed_a)"
  by (simp add: typed_a_def tick_defs input_defs display_defs emit_def after_setup_def
        printable_def Let_def)

lemma thinking_a_reached:
  "run [plain_response] [type_a, press_enter] after_setup = (Returned, thinking_a)"
  by (simp add: thinking_a_def typed_a_def tick_defs input_defs press_enter_def display_defs
        emit_def after_setup_def printable_def Let_def seed_a_0 selectResponse_def
        del: hash_loop.simps)

theorem C7_seed_only_at_transition_witness:
  "current_state typed_a = TEXT_INPUT
   \<and> current_state (snd (loop [plain_response] enter_and_button typed_a)) = THINKING
   \<and> seeds_of (log (snd (loop [plain_response] enter_and_button typed_a)))
       = [1315915973, 3563037919]
   \<and> seeds_of (log typed_a) = []
   \<and> current_response_idx (snd (loop [plain_response] enter_and_button typed_a))
       = selectResponse [plain_response] 3563037919
   \<and> current_state thinking_a = THINKING
   \<and> seeds_of (log (snd (loop [plain_response] quiet_input thinking_a))) = seeds_of (log thinking_a)
   \<and> current_response_idx (snd (loop [plain_response] quiet_input thinking_a))
       = current_response_idx thinking_a"
proof -
  have a: "seeds_of (log (snd (loop [plain_response] enter_and_button typed_a)))
             = [1315915973, 3563037919]"
    by (simp add: typed_a_def tick_defs input_defs display_defs emit_def after_setup_def
          Let_def seed_a_0 seed_a_1 del: hash_loop.simps)
  have b: "seeds_of (log typed_a) = []" "current_state typed_a = TEXT_INPUT"
    by (simp_all add: typed_a_def)
  have c: "current_state thinking_a = THINKING"
    by (simp add: thinking_a_def)
  show ?thesis
    using C7_seed_only_at_transition [of typed_a "[plain_response]" enter_and_button]
      C7_seed_only_at_transition [of thinking_a "[plain_response]" quiet_input] a b c
    by simp
qed

subsection \<open>Microphone and speaker\<close>

lemma switches_after_simps:
  "switches_after hw [] = hw"
  "switches_after hw (e # es) = switches_after (audio_step hw e) es"
  by (simp_all add: switches_after_def)

lemma switches_after_append:
  "switches_after hw (xs @ ys) = switches_after (switches_after hw xs) ys"
  by (simp add: switches_after_def)

lemma exclusive_throughout_head:
  "exclusive_throughout hw evs \<Longrightarrow> \<not> (fst hw \<and> snd hw)"
  by (cases evs) simp_all

lemma exclusive_throughout_append:
  "exclusive_throughout hw (xs @ ys)
     = (exclusive_throughout hw xs \<and> exclusive_throughout (switches_after hw xs) ys)"
  by (induction xs arbitrary: hw)
     (auto simp: switches_after_simps dest: exclusive_throughout_head)

lemma mic_released_append:
  "mic_released_before_playback hw (xs @ ys)
     = (mic_released_before_playback hw xs
        \<and> mic_released_before_playback (switches_after hw xs) ys)"
  by (induction xs arbitrary: hw) (auto simp: switches_after_simps)

lemma exclusive_throughout_last:
  "exclusive_throughout hw evs \<Longrightarrow>
   \<not> (fst (switches_after hw evs) \<and> snd (switches_after hw evs))"
  by (induction evs arbitrary: hw) (auto simp: switches_after_simps)

lemmas audio_snoc = switches_after_simps switches_after_append exclusive_throughout_append
  mic_released_append

lemma cursor_blink_inv: "quiet_inv s \<Longrightarrow> quiet_inv (cursor_blink inp s)"
  by (simp add: quiet_inv_def audio_inv_def cursor_blink_def display_defs emit_def Let_def audio_snoc)

lemma idle_keys_inv: "quiet_inv s \<Longrightarrow> quiet_inv (idle_keys ws s)"
  by (induction ws)
     (simp_all add: quiet_inv_def audio_inv_def display_defs emit_def Let_def audio_snoc)

lemma idle_tick_inv: "quiet_inv s \<Longrightarrow> quiet_inv (idle_tick inp s)"
proof -
  assume "quiet_inv s"
  then have "quiet_inv (idle_keys (keys_word inp) s)" by (rule idle_keys_inv)
  with \<open>quiet_inv s\<close> show ?thesis
    by (auto simp: idle_tick_def quiet_inv_def audio_inv_def display_defs periph_defs Let_def
          audio_snoc)
qed

lemma text_keys_inv: "quiet_inv s \<Longrightarrow> quiet_inv (text_keys ws s)"
  by (induction ws arbitrary: s)
     (simp_all add: quiet_inv_def audio_inv_def display_defs emit_def Let_def audio_snoc)

lemma submit_question_inv: "quiet_inv s \<Longrightarrow> quiet_inv (submit_question rs c t s)"
  by (simp add: quiet_inv_def audio_inv_def submit_question_def display_defs emit_def Let_def
        audio_snoc)

lemma displayTextInput_inv: "quiet_inv s \<Longrightarrow> quiet_inv (displayTextInput q s)"
  by (simp add: quiet_inv_def audio_inv_def display_defs emit_def audio_snoc)

lemma question_update_inv: "quiet_inv (s\<lparr>current_question := q\<rparr>) = quiet_inv s"
  by (simp add: quiet_inv_def audio_inv_def)

lemma text_input_tick_inv: "quiet_inv s \<Longrightarrow> quiet_inv (text_input_tick rs inp s)"
  by (simp add: text_input_tick_def Let_def text_keys_inv submit_question_inv
        displayTextInput_inv question_update_inv)

lemma voice_input_tick_inv:
  "quiet_inv s \<Longrightarrow> quiet_inv (snd (voice_input_tick rs inp s))"
  by (auto simp: voice_input_tick_def quiet_inv_def audio_inv_def Mic_record_def display_defs
        periph_defs Let_def audio_snoc split: option.splits sum.splits)

lemma thinking_tick_inv: "quiet_inv s \<Longrightarrow> quiet_inv (thinking_tick rs inp s)"
  by (simp add: thinking_tick_def quiet_inv_def audio_inv_def display_defs emit_def Let_def
        audio_snoc)

lemma playResponseAudio_inv:
  "quiet_inv s \<Longrightarrow>
   audio_inv (snd (playResponseAudio inp path s))
   \<and> (fst (playResponseAudio inp path s) = Returned
        \<longrightarrow> \<not> speaker_enabled (snd (playResponseAudio inp path s)))"
  by (auto simp: playResponseAudio_def quiet_inv_def audio_inv_def periph_defs Let_def
        audio_snoc split: option.splits)

lemma result_inv_Returned: "result_inv (Returned, s) = quiet_inv s"
  by (simp add: result_inv_def quiet_inv_def)

lemma result_inv_then_do:
  assumes "result_inv r" and "\<And>s. quiet_inv s \<Longrightarrow> result_inv (f s)"
  shows "result_inv (then_do r f)"
proof (cases "fst r")
  case Returned
  with assms(1) have "quiet_inv (snd r)" by (simp add: result_inv_def quiet_inv_def)
  then have "result_inv (f (snd r))" by (rule assms(2))
  with Returned show ?thesis by (simp add: then_do_def)
next
  case Blocked
  with assms(1) show ?thesis by (simp add: then_do_def)
next
  case (Faulted e)
  with assms(1) show ?thesis by (simp add: then_do_def)
qed

lemma playResponseAudio_result: "quiet_inv s \<Longrightarrow> result_inv (playResponseAudio inp path s)"
  using playResponseAudio_inv [of s inp path] by (simp add: result_inv_def)

lemma quiet_inv_fields:
  "quiet_inv (s\<lparr>audio_played := b\<rparr>) = quiet_inv s"
  "quiet_inv (s\<lparr>state_timer := t\<rparr>) = quiet_inv s"
  "quiet_inv (s\<lparr>current_state := st\<rparr>) = quiet_inv s"
  "quiet_inv (s\<lparr>current_question := q\<rparr>) = quiet_inv s"
  by (simp_all add: quiet_inv_def audio_inv_def)

lemma displayIdle_inv: "quiet_inv s \<Longrightarrow> quiet_inv (displayIdle s)"
  by (simp add: quiet_inv_def audio_inv_def display_defs emit_def audio_snoc)

lemma showing_answer_tick_inv:
  assumes "quiet_inv s"
  shows "result_inv (showing_answer_tick rs inp s)"
  unfolding showing_answer_tick_def
proof (rule result_inv_then_do)
  show "result_inv
     (if \<not> audio_played s then
        (let s = s\<lparr>audio_played := True\<rparr> in
         if unat (current_response_idx s) < length rs then
           then_do (playResponseAudio inp (wav_path (rs ! unat (current_response_idx s))) s)
             (\<lambda>s. (Returned, s\<lparr>state_timer := millis inp AnswerReset\<rparr>))
         else (Faulted IndexOutOfRange, s))
      else (Returned, s))"
  proof (cases "audio_played s")
    case True
    with assms show ?thesis by (simp add: result_inv_Returned)
  next
    case False
    let ?s = "s\<lparr>audio_played := True\<rparr>"
    have q: "quiet_inv ?s" using assms by (simp add: quiet_inv_fields)
    have "result_inv (then_do (playResponseAudio inp (wav_path (rs ! unat (current_response_idx ?s))) ?s)
             (\<lambda>s. (Returned, s\<lparr>state_timer := millis inp AnswerReset\<rparr>)))"
      by (rule result_inv_then_do [OF playResponseAudio_result [OF q]])
         (simp add: result_inv_Returned quiet_inv_fields)
    moreover have "result_inv (Faulted IndexOutOfRange, ?s)"
      using q by (simp add: result_inv_def quiet_inv_def)
    ultimately show ?thesis using False by (simp add: Let_def)
  qed
next
  fix t
  assume "quiet_inv t"
  then show "result_inv (Returned,
          if btnA_wasPressed inp \<or> 5000 < millis inp AnswerCheck - state_timer t then
            (let s = t\<lparr>current_state := IDLE\<rparr>;
                 s = s\<lparr>current_question := []\<rparr>;
                 s = s\<lparr>audio_played := False\<rparr>
             in displayIdle s)
          else t)"
    by (simp add: result_inv_Returned Let_def displayIdle_inv quiet_inv_fields)
qed

lemma voice_input_tick_result:
  "quiet_inv s \<Longrightarrow> result_inv (voice_input_tick rs inp s)"
  using voice_input_tick_inv [of s rs inp] by (simp add: result_inv_def quiet_inv_def)

lemma loop_inv: "quiet_inv s \<Longrightarrow> result_inv (loop rs inp s)"
proof -
  assume "quiet_inv s"
  then have b: "quiet_inv (cursor_blink inp s)" by (rule cursor_blink_inv)
  show ?thesis
    by (cases "current_state (cursor_blink inp s)")
       (simp_all add: loop_def result_inv_Returned idle_tick_inv [OF b]
          text_input_tick_inv [OF b] thinking_tick_inv [OF b]
          voice_input_tick_result [OF b] showing_answer_tick_inv [OF b])
qed

lemma run_inv: "quiet_inv s \<Longrightarrow> result_inv (run rs inps s)"
proof (induction inps arbitrary: s)
  case Nil
  then show ?case by (simp add: result_inv_Returned)
next
  case (Cons inp inps)
  show ?case
    unfolding run.simps
    by (rule result_inv_then_do [OF loop_inv [OF Cons.prems]]) (rule Cons.IH)
qed

lemma after_setup_inv: "quiet_inv after_setup"
  by (simp add: quiet_inv_def audio_inv_def after_setup_def switches_after_simps)

text \<open>
  Claim C4: in every state the interaction loop reaches from the end of \<^verbatim>\<open>setup()\<close>,
  whatever the responses and the inputs of the passes, and at every instant on the way
  there (before and after each event of the history, also inside a pass that plays a clip
  and inside one that never returns from the playback), at most one of microphone and
  speaker is on; in particular the microphone is off whenever \<^verbatim>\<open>Speaker.begin()\<close> or
  \<^verbatim>\<open>Speaker.playRaw\<close> is called.
\<close>

theorem C4_microphone_speaker_exclusive:
  "exclusive_throughout (mic_enabled after_setup, speaker_enabled after_setup)
     (log (snd (run rs inps after_setup)))
   \<and> mic_released_before_playback (mic_enabled after_setup, speaker_enabled after_setup)
     (log (snd (run rs inps after_setup)))
   \<and> \<not> (mic_enabled (snd (run rs inps after_setup))
        \<and> speaker_enabled (snd (run rs inps after_setup)))"
proof -
  have hw: "(mic_enabled after_setup, speaker_enabled after_setup) = (True, False)"
    by (simp add: after_setup_def)
  have inv: "audio_inv (snd (run rs inps after_setup))"
    using run_inv [OF after_setup_inv, of rs inps] by (simp add: result_inv_def)
  then have ex: "exclusive_throughout (True, False) (log (snd (run rs inps after_setup)))"
    and rel: "mic_released_before_playback (True, False) (log (snd (run rs inps after_setup)))"
    and sw: "switches_after (True, False) (log (snd (run rs inps after_setup)))
              = (mic_enabled (snd (run rs inps after_setup)),
                 speaker_enabled (snd (run rs inps after_setup)))"
    by (simp_all add: audio_inv_def)
  from exclusive_throughout_last [OF ex] sw
  have "\<not> (mic_enabled (snd (run rs inps after_setup))
        \<and> speaker_enabled (snd (run rs inps after_setup)))"
    by simp
  with ex rel hw show ?thesis by simp
qed

subsection \<open>The voice capture\<close>

lemma record_offsets_append:
  "record_offsets (xs @ ys) = record_offsets xs @ record_offsets ys"
  by (induction xs rule: record_offsets.induct) simp_all

lemma write_chunk_twice:
  "write_chunk (write_chunk buf 0 c) 0 c = write_chunk buf 0 c"
  by (simp add: write_chunk_def)

lemma voice_pass:
  assumes "voice_view s = (VOICE_INPUT, True, 0, k, buf, offs, sds)"
    and "k < record_number"
  shows "fst (loop rs (recording v) s) = Returned
   \<and> voice_view (snd (loop rs (recording v) s))
       = (VOICE_INPUT, True, 0, k + 1, write_chunk buf 0 (\<lambda>i. v), offs @ [0], sds)"
  using assms
  by (simp add: voice_view_def loop_def cursor_blink_def voice_input_tick_def Mic_record_def
        display_defs emit_def input_defs Let_def record_offsets_append seeds_of_append)

lemma voice_run:
  assumes "voice_view s = (VOICE_INPUT, True, 0, k, buf, offs, sds)"
    and "k + n \<le> record_number"
  shows "fst (run rs (replicate n (recording v)) s) = Returned
   \<and> voice_view (snd (run rs (replicate n (recording v)) s))
       = (VOICE_INPUT, True, 0, k + n,
          if n = 0 then buf else write_chunk buf 0 (\<lambda>i. v), offs @ replicate n 0, sds)"
  using assms
proof (induction n arbitrary: s k buf offs)
  case 0
  then show ?case by simp
next
  case (Suc n)
  have k: "k < record_number" using Suc.prems(2) by simp
  from voice_pass [OF Suc.prems(1) k]
  have r: "fst (loop rs (recording v) s) = Returned"
    and v: "voice_view (snd (loop rs (recording v) s))
       = (VOICE_INPUT, True, 0, k + 1, write_chunk buf 0 (\<lambda>i. v), offs @ [0], sds)"
    by simp_all
  have "k + 1 + n \<le> record_number" using Suc.prems(2) by simp
  from Suc.IH [OF v this]
  have "fst (run rs (replicate n (recording v)) (snd (loop rs (recording v) s))) = Returned"
    and "voice_view (snd (run rs (replicate n (recording v)) (snd (loop rs (recording v) s))))
       = (VOICE_INPUT, True, 0, k + 1 + n,
          if n = 0 then write_chunk buf 0 (\<lambda>i. v)
          else write_chunk (write_chunk buf 0 (\<lambda>i. v)) 0 (\<lambda>i. v),
          (offs @ [0]) @ replicate n 0, sds)"
    by simp_all
  then show ?case
    using r by (simp add: then_do_def write_chunk_twice replicate_app_Cons_same)
qed

lemma voice_last_pass:
  assumes "voice_view s = (VOICE_INPUT, True, 0, record_number, buf, offs, sds)"
    and "length buf = record_size"
  shows "fst (loop rs (recording v) s) = Returned
   \<and> current_state (snd (loop rs (recording v) s)) = THINKING
   \<and> rec_data (snd (loop rs (recording v) s)) = write_chunk buf 0 (\<lambda>i. v)
   \<and> record_offsets (log (snd (loop rs (recording v) s))) = offs @ [0]
   \<and> map Inr (seeds_of (log (snd (loop rs (recording v) s))))
       = map Inr sds @ [generateSeedFromAudio (write_chunk buf 0 (\<lambda>i. v)) 0]"
proof -
  have len: "length (write_chunk buf 0 (\<lambda>i. v)) = record_size"
    using assms(2)
    by (simp add: write_chunk_def record_size_def record_number_def record_length_def)
  then have tk: "take record_size (write_chunk buf 0 (\<lambda>i. v)) = write_chunk buf 0 (\<lambda>i. v)"
    by simp
  have "0 < record_size"
    by (simp add: record_size_def record_number_def record_length_def)
  with len have ne: "write_chunk buf 0 (\<lambda>i. v) \<noteq> []" by auto
  obtain w where w: "generateSeedFromAudio (write_chunk buf 0 (\<lambda>i. v)) 0 = Inr w"
    using ne by (simp add: generateSeedFromAudio_def Let_def)
  show ?thesis
    using assms(1)
    by (simp add: voice_view_def loop_def cursor_blink_def voice_input_tick_def Mic_record_def
          display_defs periph_defs input_defs Let_def record_offsets_append seeds_of_append
          tk w)
qed

lemma after_press_button:
  "fst (loop rs press_button after_setup) = Returned
   \<and> voice_view (snd (loop rs press_button after_setup))
       = (VOICE_INPUT, True, 0, 2, replicate record_size 0, [], [])"
  by (simp add: voice_view_def loop_def cursor_blink_def idle_tick_def display_defs periph_defs
        input_defs after_setup_def Let_def)

lemma then_do_Returned: "fst r = Returned \<Longrightarrow> then_do r f = f (snd r)"
  by (simp add: then_do_def)

lemma then_do_assoc: "then_do (then_do r f) g = then_do r (\<lambda>s. then_do (f s) g)"
  by (cases "fst r") (simp_all add: then_do_def)

lemma run_append: "run rs (xs @ ys) s = then_do (run rs xs s) (run rs ys)"
proof (induction xs arbitrary: s)
  case Nil
  show ?case by (simp add: then_do_def)
next
  case (Cons x xs)
  have "run rs (xs @ ys) = (\<lambda>s. then_do (run rs xs s) (run rs ys))"
    by (rule ext) (rule Cons.IH)
  then show ?case by (simp add: then_do_assoc)
qed

lemma replicate_133: "replicate 133 x = replicate 132 x @ [x]"
proof -
  have "replicate (Suc 132) x = replicate 132 x @ [x]"
    by (simp only: replicate_Suc replicate_append_same)
  then show ?thesis by simp
qed

lemma run_single: "run rs [inp] s = loop rs inp s"
  by (cases "fst (loop rs inp s)") (simp_all add: then_do_def prod_eq_iff)

lemma constant_chunk:
  "write_chunk (replicate record_size 0) 0 (\<lambda>i. v)
     = replicate record_length v @ replicate (record_size - record_length) 0"
  by (simp add: write_chunk_def map_replicate_const)

lemma capture_run:
  "current_state (snd (run rs (press_button # replicate 132 (recording v)) after_setup))
     = VOICE_INPUT
   \<and> rec_record_idx (snd (run rs (press_button # replicate 132 (recording v)) after_setup))
     = record_number
   \<and> seeds_of (log (snd (run rs (press_button # replicate 132 (recording v)) after_setup)))
     = []
   \<and> fst (run rs (press_button # replicate 133 (recording v)) after_setup) = Returned
   \<and> current_state (snd (run rs (press_button # replicate 133 (recording v)) after_setup))
     = THINKING
   \<and> record_offsets (log (snd (run rs (press_button # replicate 133 (recording v)) after_setup)))
     = replicate 133 0
   \<and> rec_data (snd (run rs (press_button # replicate 133 (recording v)) after_setup))
     = replicate record_length v @ replicate (record_size - record_length) 0
   \<and> map Inr (seeds_of (log (snd (run rs (press_button # replicate 133 (recording v)) after_setup))))
     = [generateSeedFromAudio (replicate record_length v @ replicate (record_size - record_length) 0) 0]"
proof -
  let ?s1 = "snd (loop rs press_button after_setup)"
  let ?s132 = "snd (run rs (replicate 132 (recording v)) ?s1)"
  let ?s133 = "snd (loop rs (recording v) ?s132)"
  let ?buf = "replicate record_length v @ replicate (record_size - record_length) 0"
  have r1: "fst (loop rs press_button after_setup) = Returned"
    and v1: "voice_view ?s1 = (VOICE_INPUT, True, 0, 2, replicate record_size 0, [], [])"
    using after_press_button by simp_all
  have "2 + 132 \<le> record_number" by (simp add: record_number_def)
  from voice_run [OF v1 this]
  have r132: "fst (run rs (replicate 132 (recording v)) ?s1) = Returned"
    and v132: "voice_view ?s132
        = (VOICE_INPUT, True, 0, record_number, ?buf, replicate 132 0, [])"
    by (simp_all add: constant_chunk record_number_def)
  have len: "length ?buf = record_size"
    by (simp add: record_size_def record_number_def record_length_def)
  have again: "write_chunk ?buf 0 (\<lambda>i. v) = ?buf"
    using write_chunk_twice [of "replicate record_size 0" "\<lambda>i. v"] by (simp only: constant_chunk)
  from voice_last_pass [OF v132 len]
  have r133: "fst (loop rs (recording v) ?s132) = Returned"
    and st: "current_state ?s133 = THINKING"
    and buf: "rec_data ?s133 = ?buf"
    and offs: "record_offsets (log ?s133) = replicate 133 0"
    and sds: "map Inr (seeds_of (log ?s133)) = [generateSeedFromAudio ?buf 0]"
    by (simp_all add: again replicate_133)
  have run132: "run rs (press_button # replicate 132 (recording v)) after_setup
                  = run rs (replicate 132 (recording v)) ?s1"
    using r1 by (simp add: then_do_Returned)
  have "replicate 133 (recording v) = replicate 132 (recording v) @ [(recording v)]"
    by (rule replicate_133)
  then have "run rs (press_button # replicate 133 (recording v)) after_setup
               = then_do (run rs (replicate 132 (recording v)) ?s1) (run rs [(recording v)])"
    using r1 by (simp only: run.simps run_append then_do_Returned)
  then have run133: "run rs (press_button # replicate 133 (recording v)) after_setup
               = loop rs (recording v) ?s132"
    using r132 by (simp only: then_do_Returned run_single)
  have a: "current_state ?s132 = VOICE_INPUT" and b: "seeds_of (log ?s132) = []"
    and c: "rec_record_idx ?s132 = record_number"
    using v132 by (simp_all add: voice_view_def)
  show ?thesis
    unfolding run132 run133 using a b c r133 st buf offs sds by simp
qed

text \<open>
  Claim C1: the capture completes after exactly 134 successful chunk fills, each fill
  writes its chunk at the write cursor, and at completion the buffer holds
  \<open>134 \<times> 240\<close> captured samples, on which the audio seed is computed. From the state
  after \<^verbatim>\<open>setup()\<close>, press the primary button and let \<^verbatim>\<open>Mic.record\<close> deliver a
  chunk of samples of value 7 in every pass. After 132 chunks the cursor
  \<^verbatim>\<open>rec_record_idx\<close>, which starts at 2, has reached 134 and the machine still
  records; the 133rd chunk completes the capture. Every chunk was written at offset 0 of
  \<^verbatim>\<open>rec_data\<close>, so the buffer holds one chunk of captured samples followed by the
  zeros of \<^verbatim>\<open>setup()\<close>, and the seed is computed on that.
\<close>

theorem C1_capture_overwrites_first_chunk:
  "current_state (snd (run [plain_response] (press_button # replicate 132 (recording 7)) after_setup))
     = VOICE_INPUT
   \<and> rec_record_idx (snd (run [plain_response] (press_button # replicate 132 (recording 7)) after_setup))
     = record_number
   \<and> seeds_of (log (snd (run [plain_response] (press_button # replicate 132 (recording 7)) after_setup)))
     = []
   \<and> fst (run [plain_response] (press_button # replicate 133 (recording 7)) after_setup) = Returned
   \<and> current_state (snd (run [plain_response] (press_button # replicate 133 (recording 7)) after_setup))
     = THINKING
   \<and> record_offsets (log (snd (run [plain_response] (press_button # replicate 133 (recording 7)) after_setup)))
     = replicate 133 0
   \<and> rec_data (snd (run [plain_response] (press_button # replicate 133 (recording 7)) after_setup))
     = replicate record_length 7 @ replicate (record_size - record_length) 0
   \<and> map Inr (seeds_of (log (snd (run [plain_response] (press_button # replicate 133 (recording 7)) after_setup))))
     = [generateSeedFromAudio (replicate record_length 7 @ replicate (record_size - record_length) 0) 0]"
  by (rule capture_run)

subsection \<open>A run that plays a clip\<close>

lemma wait_two: "wait_playing (\<lambda>k. k < 2) 0 = Some 2"
  by (simp add: wait_playing.simps)

lemma playback_run_example:
  "run [wav_response] [type_a, press_enter, late_input, late_input] after_setup
     = (Returned,
        \<lparr>current_state = SHOWING_ANSWER, current_question = ''a'',
           current_response_idx = 0, state_timer = 3000,
           cursor_visible = False, last_cursor_blink = 3000,
           audio_played = True, rec_record_idx = 2, draw_record_idx = 0,
           rec_data = replicate record_size 0, mic_enabled = False,
           speaker_enabled = False,
           log =
             [Display (TextInputScreen ''a'' True),
              Seed (generateSeedFromText ''a'' 0), Display ThinkingScreen,
              Display ThinkingScreen, Display (AnswerScreen 0), MicEnd,
              SpeakerBegin, Printf ''Playing audio'', PlayRaw 50, SpeakerEnd,
              Printf ''Audio playback complete'']\<rparr>)"
  by (simp add: tick_defs input_defs display_defs periph_defs after_setup_def printable_def
        Let_def wav_response_def press_enter_def late_input_def playResponseAudio_def wait_two
        selectResponse_def del: hash_loop.simps)

section \<open>The audio seed of a clipped capture\<close>

lemma peak_loop_append: "peak_loop p (xs @ ys) = peak_loop (peak_loop p xs) ys"
  by (induction xs arbitrary: p) (simp_all add: Let_def)

lemma peak_loop_zeros: "peak_loop 0 (replicate n 0) = 0"
  by (induction n) (simp_all add: Let_def)

lemma sign_changes_replicate_Cons:
  "sign_changes (x # replicate n x @ y # ys) = sign_changes (x # y # ys)"
  by (induction n) (simp_all add: sign_changes_simps)

lemma sign_changes_two_levels:
  assumes "0 < n" and "0 < m"
  shows "sign_changes (replicate n x @ replicate m y)
           = (if (sint x < 0) \<noteq> (sint y < 0) then 1 else 0)"
proof -
  obtain n' where n: "n = Suc n'" using assms(1) by (cases n) simp_all
  obtain m' where m: "m = Suc m'" using assms(2) by (cases m) simp_all
  have "sign_changes (replicate n x @ replicate m y)
          = sign_changes (x # replicate n' x @ y # replicate m' y)"
    by (simp add: n m)
  also have "\<dots> = sign_changes (x # y # replicate m' y)"
    by (rule sign_changes_replicate_Cons)
  also have "\<dots> = (if (sint x < 0) \<noteq> (sint y < 0) then 1 else 0)"
    by (simp add: sign_changes_simps sign_changes_const)
  finally show ?thesis .
qed

lemma sum_squares_loop_append:
  "sum_squares_loop acc (xs @ ys) = sum_squares_loop (sum_squares_loop acc xs) ys"
  by (induction xs arbitrary: acc) simp_all

lemma peak_amplitude_append:
  "peak_amplitude (xs @ ys) = max (peak_amplitude xs) (peak_amplitude ys)"
  unfolding peak_amplitude_def by (induction xs) (simp_all add: max.assoc)

lemma isqrt_8012998: "isqrt 8012998 = 2830"
  by (simp add: isqrt_def sqrt_search_numeral)

lemma clipped_buffer:
  "replicate record_length (- 32768) @ replicate (record_size - record_length) (0 :: i16)
     = replicate 240 (- 32768) @ replicate 31920 0"
  by (simp add: record_size_def record_number_def record_length_def)

lemma clipped_code_seed:
  "generateSeedFromAudio
     (replicate record_length (- 32768) @ replicate (record_size - record_length) 0) clock
     = Inr (0x0B0E0100 XOR clock)"
proof -
  let ?buf = "replicate 240 (- 32768) @ replicate 31920 (0 :: i16)"
  have pk: "peak_loop 0 ?buf = 0"
    by (simp only: peak_loop_append peak_loop_min peak_loop_zeros)
  have sc: "sign_changes ?buf = 1"
    by (simp add: sign_changes_two_levels)
  have zc: "zero_crossings_loop 0 ?buf = 1"
    by (simp only: zero_crossings_loop_spec sc) simp
  have ss: "unat (sum_squares_loop 0 ?buf) div 32160 = 8012998"
    by (simp add: sum_squares_loop_append sum_squares_loop_replicate)
  have "generateSeedFromAudio ?buf clock = Inr (0x0B0E0100 XOR clock)"
    by (simp add: generateSeedFromAudio_def pk zc ss isqrt_8012998 Let_def flip: xor.assoc)
  then show ?thesis by (simp only: clipped_buffer)
qed

lemma clipped_spec_seed:
  "spec_seedFromAudio
     (replicate record_length (- 32768) @ replicate (record_size - record_length) 0) clock
     = 0x0B0E8100 XOR clock"
proof -
  let ?buf = "replicate 240 (- 32768) @ replicate 31920 (0 :: i16)"
  have sc: "sign_changes ?buf = 1"
    by (simp add: sign_changes_two_levels)
  have pa: "peak_amplitude ?buf = 32768"
    by (simp add: peak_amplitude_append peak_amplitude_replicate)
  have r: "rms_energy ?buf = 2830"
    by (simp add: rms_energy_def sum_list_replicate isqrt_8012998)
  have "spec_seedFromAudio ?buf clock = 0x0B0E8100 XOR clock"
    by (simp add: spec_seedFromAudio_def pa sc r flip: xor.assoc)
  then show ?thesis by (simp only: clipped_buffer)
qed

lemma clipped_capture_seed:
  "seeds_of (log (snd (run rs (press_button # replicate 133 (recording (- 32768))) after_setup)))
     = [0x0B0E0100]"
proof -
  have "map Inr (seeds_of (log (snd (run rs (press_button # replicate 133 (recording (- 32768)))
            after_setup))))
          = [generateSeedFromAudio
               (replicate record_length (- 32768) @ replicate (record_size - record_length) 0) 0]"
    using capture_run [of rs "- 32768"] by simp
  then have "map Inr (seeds_of (log (snd (run rs (press_button # replicate 133 (recording (- 32768)))
            after_setup))))
          = [Inr (0x0B0E0100 :: u32) :: error + u32]"
    by (simp only: clipped_code_seed) simp
  then show ?thesis by (auto simp: map_eq_Cons_conv)
qed

text \<open>
  Claim C5: for every sample sequence and clock value the audio seed is
  \<open>peak XOR (zeroCrossings << 8) XOR (rms << 16) XOR clock\<close>, with \<open>peak\<close> the
  maximum absolute amplitude. When the microphone delivers samples at the negative rail,
  \<open>-32768\<close>, the buffer the running program hands to \<open>generateSeedFromAudio\<close>
  is one chunk of that value followed by zeros, and there the code and the claim part:
  \<^verbatim>\<open>abs\<close> gives 32768, which the \<^verbatim>\<open>int16_t\<close> variable \<^verbatim>\<open>abs_val\<close> holds as
  \<open>-32768\<close>, so the comparison never raises \<^verbatim>\<open>peak\<close> from 0, while the maximum
  absolute amplitude is 32768. The seed the program computes is the one with peak 0.
\<close>

theorem C5_peak_misses_negative_rail:
  "generateSeedFromAudio
     (replicate record_length (- 32768) @ replicate (record_size - record_length) 0) clock
     = Inr (0x0B0E0100 XOR clock)
   \<and> spec_seedFromAudio
     (replicate record_length (- 32768) @ replicate (record_size - record_length) 0) clock
     = 0x0B0E8100 XOR clock
   \<and> seeds_of (log (snd (run [plain_response]
         (press_button # replicate 133 (recording (- 32768))) after_setup)))
     = [0x0B0E0100]"
  by (simp only: clipped_code_seed clipped_spec_seed clipped_capture_seed)

end
